theory Spec2Isabelle
  imports Main
begin

section \<open>Python values the module works with\<close>

text \<open>
  A Python \<^verbatim>\<open>str\<close> is a sequence of Unicode code points, and the module compares
  cell texts with Cyrillic weekday names, so a text is a list of code points.
  \<open>ascii\<close> turns an ASCII literal into such a text.
\<close>

type_synonym pystr = "nat list"

definition ascii :: "string \<Rightarrow> pystr" where
  "ascii s = map of_char s"

text \<open>
  The exceptions the module can raise. Python's \<^verbatim>\<open>ValueError\<close> carries the condition
  that raised it. \<^verbatim>\<open>SemesterTypeNotFoundError\<close> is the module's own subclass of
  \<^verbatim>\<open>ValueError\<close>, a type of its own.
\<close>

datatype value_error =
    InvalidLiteral      \<comment> \<open>\<^verbatim>\<open>int(s)\<close>: invalid literal for int() with base 10\<close>
  | NotInList           \<comment> \<open>\<^verbatim>\<open>list.index(x)\<close>: x is not in list\<close>
  | InvalidEnum         \<comment> \<open>\<^verbatim>\<open>Enum(v)\<close>: v is not a valid member\<close>
  | OutOfRange          \<comment> \<open>\<^verbatim>\<open>datetime(...)\<close>: year, month or day is out of range\<close>
  | Unpack              \<comment> \<open>too many or not enough values to unpack\<close>

datatype error =
    ValueError value_error
  | SemesterTypeNotFoundError
  | OverflowError
  | IndexError
  | KeyError
  | RequestException

text \<open>\<^verbatim>\<open>xs[i]\<close> for a non-negative constant index, and \<^verbatim>\<open>xs.index(x)\<close>.\<close>

definition getitem :: "'a list \<Rightarrow> nat \<Rightarrow> error + 'a" where
  "getitem xs i = (if i < length xs then Inr (xs ! i) else Inl IndexError)"

fun index :: "'a list \<Rightarrow> 'a \<Rightarrow> error + int" where
  "index [] x = Inl (ValueError NotInList)"
| "index (y # ys) x =
     (if y = x then Inr 0
      else case index ys x of Inl e \<Rightarrow> Inl e | Inr i \<Rightarrow> Inr (i + 1))"

subsection \<open>\<^verbatim>\<open>str.split\<close>, \<^verbatim>\<open>str(int)\<close> and \<^verbatim>\<open>int(str)\<close>\<close>

text \<open>\<^verbatim>\<open>s.split(sep)\<close> with a one-character separator: every occurrence splits, empty
  pieces are kept, and the result is never empty.\<close>

fun split_sep :: "nat \<Rightarrow> pystr \<Rightarrow> pystr list" where
  "split_sep sep [] = [[]]"
| "split_sep sep (c # cs) =
     (if c = sep then [] # split_sep sep cs
      else case split_sep sep cs of
             [] \<Rightarrow> [[c]]
           | p # ps \<Rightarrow> (c # p) # ps)"

text \<open>The code points for which \<^verbatim>\<open>str.isspace\<close> holds.\<close>

definition isspace :: "nat \<Rightarrow> bool" where
  "isspace c \<longleftrightarrow>
     (9 \<le> c \<and> c \<le> 13) \<or> (28 \<le> c \<and> c \<le> 32) \<or> c = 133 \<or> c = 160 \<or> c = 5760
     \<or> (8192 \<le> c \<and> c \<le> 8202) \<or> c = 8232 \<or> c = 8233 \<or> c = 8239 \<or> c = 8287
     \<or> c = 12288"

text \<open>\<^verbatim>\<open>s.split()\<close>: the maximal runs of non-whitespace, in order; \<open>split_ws_acc\<close>
  carries the run read so far, reversed.\<close>

fun split_ws_acc :: "pystr \<Rightarrow> pystr \<Rightarrow> pystr list" where
  "split_ws_acc acc [] = (if acc = [] then [] else [rev acc])"
| "split_ws_acc acc (c # cs) =
     (if isspace c then (if acc = [] then split_ws_acc [] cs else rev acc # split_ws_acc [] cs)
      else split_ws_acc (c # acc) cs)"

definition split_ws :: "pystr \<Rightarrow> pystr list" where
  "split_ws s = split_ws_acc [] s"

text \<open>\<^verbatim>\<open>str(n)\<close> for an integer: decimal digits, with a minus sign when negative.\<close>

fun digits :: "nat \<Rightarrow> pystr" where
  "digits n = (if n < 10 then [48 + n] else digits (n div 10) @ [48 + n mod 10])"

declare digits.simps [simp del]

definition str_int :: "int \<Rightarrow> pystr" where
  "str_int i = (if i < 0 then 45 # digits (nat (- i)) else digits (nat i))"

text \<open>\<^verbatim>\<open>s[-2:]\<close>: the last two characters, or the whole text when it is shorter.\<close>

definition last2 :: "pystr \<Rightarrow> pystr" where
  "last2 s = drop (length s - 2) s"

text \<open>
  \<^verbatim>\<open>int(s)\<close> in base 10, as CPython does it. A text with a character from 127 on is
  first transliterated: Unicode whitespace becomes a blank, a Unicode decimal digit its
  ASCII digit, and anything else ends the text with a question mark. The ASCII text is
  then read: ASCII whitespace around it is dropped, one sign is allowed, and the digits
  may be grouped by single underscores. \<open>DECIMAL_ZEROS\<close> lists the digit zero of every
  block of Unicode decimal digits (Unicode 14); each block is ten consecutive code
  points. The interpreter's limit on the number of digits of a literal is not modelled.
\<close>

definition DECIMAL_ZEROS :: "nat list" where
  "DECIMAL_ZEROS =
     [48, 1632, 1776, 1984, 2406, 2534, 2662, 2790, 2918, 3046, 3174, 3302, 3430, 3558,
      3664, 3792, 3872, 4160, 4240, 6112, 6160, 6470, 6608, 6784, 6800, 6992, 7088, 7232,
      7248, 42528, 43216, 43264, 43472, 43504, 43600, 44016, 65296, 66720, 68912, 69734,
      69872, 69942, 70096, 70384, 70736, 70864, 71248, 71360, 71472, 71904, 72016, 72784,
      73040, 73120, 92768, 92864, 93008, 120782, 120792, 120802, 120812, 120822, 123200,
      123632, 125264, 130032]"

definition to_decimal :: "nat \<Rightarrow> nat option" where
  "to_decimal c =
     (case filter (\<lambda>z. z \<le> c \<and> c < z + 10) DECIMAL_ZEROS of
        [] \<Rightarrow> None
      | z # _ \<Rightarrow> Some (c - z))"

fun transform_decimal_and_space :: "pystr \<Rightarrow> pystr" where
  "transform_decimal_and_space [] = []"
| "transform_decimal_and_space (c # cs) =
     (if c < 127 then c # transform_decimal_and_space cs
      else if isspace c then 32 # transform_decimal_and_space cs
      else case to_decimal c of
             None \<Rightarrow> [63]
           | Some d \<Rightarrow> (48 + d) # transform_decimal_and_space cs)"

definition ascii_isspace :: "nat \<Rightarrow> bool" where
  "ascii_isspace c \<longleftrightarrow> (9 \<le> c \<and> c \<le> 13) \<or> c = 32"

definition ascii_isdigit :: "nat \<Rightarrow> bool" where
  "ascii_isdigit c \<longleftrightarrow> 48 \<le> c \<and> c \<le> 57"

text \<open>The digits after the first one: \<open>acc\<close> is the value read so far. A single
  underscore may stand before a digit; the text ends after a digit only.\<close>

fun int_digits :: "int \<Rightarrow> pystr \<Rightarrow> int option" where
  "int_digits acc [] = Some acc"
| "int_digits acc [c] =
     (if ascii_isdigit c then Some (acc * 10 + (int c - 48)) else None)"
| "int_digits acc (c # d # cs) =
     (if ascii_isdigit c then int_digits (acc * 10 + (int c - 48)) (d # cs)
      else if c = 95 \<and> ascii_isdigit d then int_digits acc (d # cs)
      else None)"

definition int_unsigned :: "pystr \<Rightarrow> int option" where
  "int_unsigned s =
     (case s of
        [] \<Rightarrow> None
      | c # cs \<Rightarrow> if ascii_isdigit c then int_digits (int c - 48) cs else None)"

definition int_str :: "pystr \<Rightarrow> error + int" where
  "int_str s =
     (let t = transform_decimal_and_space s;
          t = dropWhile ascii_isspace t;
          t = rev (dropWhile ascii_isspace (rev t));
          r = (case t of
                 [] \<Rightarrow> None
               | c # cs \<Rightarrow>
                   if c = 43 then int_unsigned cs
                   else if c = 45 then map_option uminus (int_unsigned cs)
                   else int_unsigned t)
      in case r of None \<Rightarrow> Inl (ValueError InvalidLiteral) | Some v \<Rightarrow> Inr v)"

section \<open>The \<^verbatim>\<open>datetime\<close> library\<close>

text \<open>
  Dates are proleptic Gregorian, as in CPython's \<^verbatim>\<open>datetime\<close>: a date holds year, month
  and day, its ordinal counts days from 0001-01-01 (ordinal 1), and arithmetic goes
  through the ordinal. Every timestamp of the module is built from integers, so
  microseconds are always zero and are left out.
\<close>

definition MINYEAR :: int where "MINYEAR = 1"
definition MAXYEAR :: int where "MAXYEAR = 9999"
definition MAXORDINAL :: int where "MAXORDINAL = 3652059"

definition DAYS_IN_MONTH :: "int list" where
  "DAYS_IN_MONTH = [-1, 31, 28, 31, 30, 31, 30, 31, 31, 30, 31, 30, 31]"

definition DAYS_BEFORE_MONTH :: "int list" where
  "DAYS_BEFORE_MONTH = [-1, 0, 31, 59, 90, 120, 151, 181, 212, 243, 273, 304, 334]"

definition is_leap :: "int \<Rightarrow> bool" where
  "is_leap y \<longleftrightarrow> y mod 4 = 0 \<and> (y mod 100 \<noteq> 0 \<or> y mod 400 = 0)"

definition days_before_year :: "int \<Rightarrow> int" where
  "days_before_year y = (let y1 = y - 1 in y1 * 365 + y1 div 4 - y1 div 100 + y1 div 400)"

definition days_in_month :: "int \<Rightarrow> int \<Rightarrow> int" where
  "days_in_month y m = (if m = 2 \<and> is_leap y then 29 else DAYS_IN_MONTH ! nat m)"

definition days_before_month :: "int \<Rightarrow> int \<Rightarrow> int" where
  "days_before_month y m = DAYS_BEFORE_MONTH ! nat m + (if m > 2 \<and> is_leap y then 1 else 0)"

definition ymd2ord :: "int \<Rightarrow> int \<Rightarrow> int \<Rightarrow> int" where
  "ymd2ord y m d = days_before_year y + days_before_month y m + d"

definition DI400Y :: int where "DI400Y = days_before_year 401"
definition DI100Y :: int where "DI100Y = days_before_year 101"
definition DI4Y :: int where "DI4Y = days_before_year 5"

text \<open>The month and day of day \<open>n\<close> of a year, counted from 0: the estimate
  \<open>(n + 50) >> 5\<close> of the month is exact or one too large.\<close>

definition month_day :: "int \<Rightarrow> bool \<Rightarrow> int \<times> int" where
  "month_day n leapyear =
     (let m = (n + 50) div 32;
          preceding = DAYS_BEFORE_MONTH ! nat m + (if m > 2 \<and> leapyear then 1 else 0)
      in if preceding > n
         then (let m' = m - 1;
                   preceding' =
                     preceding - (DAYS_IN_MONTH ! nat m' + (if m' = 2 \<and> leapyear then 1 else 0))
               in (m', n - preceding' + 1))
         else (m, n - preceding + 1))"

text \<open>What \<open>month_day\<close> has to deliver for day \<open>n\<close> of a year: a month and a day of
  that month with \<open>n\<close> days before it in the year.\<close>

definition month_day_ok :: "int \<Rightarrow> bool \<Rightarrow> bool" where
  "month_day_ok n leapyear =
     (case month_day n leapyear of
        (m, d) \<Rightarrow>
          1 \<le> m \<and> m \<le> 12 \<and> 1 \<le> d
          \<and> d \<le> DAYS_IN_MONTH ! nat m + (if m = 2 \<and> leapyear then 1 else 0)
          \<and> DAYS_BEFORE_MONTH ! nat m + (if m > 2 \<and> leapyear then 1 else 0) + d = n + 1)"

text \<open>The date of an ordinal: whole cycles of 400, 100, 4 and 1 years are taken off; the
  last day of a 4-year or 400-year cycle is December 31 of a leap year.\<close>

definition ord2ymd :: "int \<Rightarrow> int \<times> int \<times> int" where
  "ord2ymd n0 =
     (let n = n0 - 1;
          n400 = n div DI400Y; n = n mod DI400Y;
          y = n400 * 400 + 1;
          n100 = n div DI100Y; n = n mod DI100Y;
          n4 = n div DI4Y; n = n mod DI4Y;
          n1 = n div 365; n = n mod 365;
          y = y + n100 * 100 + n4 * 4 + n1
      in if n1 = 4 \<or> n100 = 4 then (y - 1, 12, 31)
         else (case month_day n (n1 = 3 \<and> (n4 \<noteq> 24 \<or> n100 = 3)) of (m, d) \<Rightarrow> (y, m, d)))"

record date =
  year :: int
  month :: int
  day :: int

record datetime = date +
  hour :: int
  minute :: int
  second :: int
  tzinfo :: string

record timedelta =
  days :: int
  seconds :: int

text \<open>The invariant of a \<^verbatim>\<open>date\<close> object, and of the time of day of a \<^verbatim>\<open>datetime\<close>.\<close>

definition valid_date :: "'a date_scheme \<Rightarrow> bool" where
  "valid_date d \<longleftrightarrow>
     MINYEAR \<le> year d \<and> year d \<le> MAXYEAR \<and> 1 \<le> month d \<and> month d \<le> 12
     \<and> 1 \<le> day d \<and> day d \<le> days_in_month (year d) (month d)"

definition valid_time :: "datetime \<Rightarrow> bool" where
  "valid_time t \<longleftrightarrow>
     0 \<le> hour t \<and> hour t < 24 \<and> 0 \<le> minute t \<and> minute t < 60 \<and> 0 \<le> second t \<and> second t < 60"

text \<open>\<^verbatim>\<open>datetime.datetime(year, month, day, tzinfo=tz)\<close>: midnight of a date that must
  exist. The constructor first converts its three numbers to C integers of 32 bits, and
  a Python integer that does not fit one raises \<^verbatim>\<open>OverflowError\<close>; only then are the
  ranges checked.\<close>

definition C_INT_MIN :: int where "C_INT_MIN = - 2147483648"
definition C_INT_MAX :: int where "C_INT_MAX = 2147483647"

definition fits_c_int :: "int \<Rightarrow> bool" where
  "fits_c_int i \<longleftrightarrow> C_INT_MIN \<le> i \<and> i \<le> C_INT_MAX"

definition datetime_init :: "int \<Rightarrow> int \<Rightarrow> int \<Rightarrow> string \<Rightarrow> error + datetime" where
  "datetime_init y m d tz =
     (if \<not> (fits_c_int y \<and> fits_c_int m \<and> fits_c_int d) then Inl OverflowError
      else if MINYEAR \<le> y \<and> y \<le> MAXYEAR \<and> 1 \<le> m \<and> m \<le> 12 \<and> 1 \<le> d \<and> d \<le> days_in_month y m
      then Inr \<lparr>year = y, month = m, day = d, hour = 0, minute = 0, second = 0, tzinfo = tz\<rparr>
      else Inl (ValueError OutOfRange))"

definition toordinal :: "'a date_scheme \<Rightarrow> int" where
  "toordinal d = ymd2ord (year d) (month d) (day d)"

definition weekday :: "'a date_scheme \<Rightarrow> int" where
  "weekday d = (toordinal d + 6) mod 7"

text \<open>\<^verbatim>\<open>dt.date()\<close>.\<close>

definition date_of :: "datetime \<Rightarrow> date" where
  "date_of t = \<lparr>year = year t, month = month t, day = day t\<rparr>"

text \<open>Comparison of dates and of timestamps with the same \<^verbatim>\<open>tzinfo\<close> object compares
  the fields in order.\<close>

definition date_lt :: "'a date_scheme \<Rightarrow> 'b date_scheme \<Rightarrow> bool" where
  "date_lt a b \<longleftrightarrow>
     year a < year b \<or> (year a = year b \<and> (month a < month b \<or> (month a = month b \<and> day a < day b)))"

definition date_ge :: "'a date_scheme \<Rightarrow> 'b date_scheme \<Rightarrow> bool" where
  "date_ge a b \<longleftrightarrow> \<not> date_lt a b"

definition date_le :: "'a date_scheme \<Rightarrow> 'b date_scheme \<Rightarrow> bool" where
  "date_le a b \<longleftrightarrow> \<not> date_lt b a"

definition time_seconds :: "datetime \<Rightarrow> int" where
  "time_seconds t = hour t * 3600 + minute t * 60 + second t"

definition datetime_lt :: "datetime \<Rightarrow> datetime \<Rightarrow> bool" where
  "datetime_lt a b \<longleftrightarrow>
     date_lt a b
     \<or> (year a = year b \<and> month a = month b \<and> day a = day b
        \<and> (hour a < hour b
           \<or> (hour a = hour b \<and> (minute a < minute b \<or> (minute a = minute b \<and> second a < second b)))))"

text \<open>The seconds from the start of day 0 to a timestamp, and the seconds of a
  duration: what the comparisons and the arithmetic of the library amount to.\<close>

definition timestamp :: "datetime \<Rightarrow> int" where
  "timestamp t = toordinal t * 86400 + time_seconds t"

text \<open>\<^verbatim>\<open>datetime.timedelta(weeks=w, days=d, hours=h, minutes=m)\<close> on integers: the
  duration is normalised to days and seconds of a day, and at most 999999999 days
  either way.\<close>

definition timedelta_init :: "int \<Rightarrow> int \<Rightarrow> int \<Rightarrow> int \<Rightarrow> error + timedelta" where
  "timedelta_init w d h m =
     (let s = h * 3600 + m * 60;
          dd = d + w * 7 + s div 86400
      in if \<bar>dd\<bar> > 999999999 then Inl OverflowError
         else Inr \<lparr>days = dd, seconds = s mod 86400\<rparr>)"

text \<open>\<^verbatim>\<open>-td\<close>, \<^verbatim>\<open>dt + td\<close>, \<^verbatim>\<open>dt - td\<close> and \<^verbatim>\<open>a - b\<close> on timestamps with the same
  \<^verbatim>\<open>tzinfo\<close>: wall-clock arithmetic, the result keeps the \<^verbatim>\<open>tzinfo\<close>.\<close>

definition timedelta_neg :: "timedelta \<Rightarrow> error + timedelta" where
  "timedelta_neg td =
     (let s = - seconds td;
          dd = - days td + s div 86400
      in if \<bar>dd\<bar> > 999999999 then Inl OverflowError
         else Inr \<lparr>days = dd, seconds = s mod 86400\<rparr>)"

definition datetime_add :: "datetime \<Rightarrow> timedelta \<Rightarrow> error + datetime" where
  "datetime_add t td =
     (let s = time_seconds t + seconds td;
          n = toordinal t + days td + s div 86400;
          r = s mod 86400
      in if 0 < n \<and> n \<le> MAXORDINAL
         then (case ord2ymd n of
                 (y, m, d) \<Rightarrow>
                   Inr \<lparr>year = y, month = m, day = d,
                        hour = r div 3600, minute = (r mod 3600) div 60, second = r mod 60,
                        tzinfo = tzinfo t\<rparr>)
         else Inl OverflowError)"

definition datetime_sub :: "datetime \<Rightarrow> timedelta \<Rightarrow> error + datetime" where
  "datetime_sub t td =
     (case timedelta_neg td of Inl e \<Rightarrow> Inl e | Inr n \<Rightarrow> datetime_add t n)"

definition datetime_diff :: "datetime \<Rightarrow> datetime \<Rightarrow> timedelta" where
  "datetime_diff a b =
     (let s = time_seconds a - time_seconds b
      in \<lparr>days = toordinal a - toordinal b + s div 86400, seconds = s mod 86400\<rparr>)"

definition total_seconds :: "timedelta \<Rightarrow> int" where
  "total_seconds td = days td * 86400 + seconds td"

text \<open>The invariant of a \<^verbatim>\<open>timedelta\<close> object.\<close>

definition valid_timedelta :: "timedelta \<Rightarrow> bool" where
  "valid_timedelta td \<longleftrightarrow> 0 \<le> seconds td \<and> seconds td < 86400 \<and> \<bar>days td\<bar> \<le> 999999999"

text \<open>\<^verbatim>\<open>dt.strftime("%H:%M")\<close>: hour and minute, two digits each.\<close>

definition two_digits :: "int \<Rightarrow> pystr" where
  "two_digits n = [nat (48 + n div 10), nat (48 + n mod 10)]"

definition strftime_HM :: "datetime \<Rightarrow> pystr" where
  "strftime_HM t = two_digits (hour t) @ [58] @ two_digits (minute t)"

section \<open>The module \<^verbatim>\<open>uust_schedule\<close>\<close>

definition TZ_NAME :: string where
  "TZ_NAME = ''Asia/Yekaterinburg''"

datatype ParticipantType = GROUP | TEACHER | ROOM

datatype SemesterType = AUTUMN | SPRING

text \<open>The integer value of a member, and \<^verbatim>\<open>ParticipantType(v)\<close>, \<^verbatim>\<open>SemesterType(v)\<close> on
  an integer.\<close>

fun ParticipantType_value :: "ParticipantType \<Rightarrow> int" where
  "ParticipantType_value GROUP = 1"
| "ParticipantType_value TEACHER = 2"
| "ParticipantType_value ROOM = 3"

fun SemesterType_value :: "SemesterType \<Rightarrow> int" where
  "SemesterType_value AUTUMN = 1"
| "SemesterType_value SPRING = 2"

definition ParticipantType_of :: "int \<Rightarrow> error + ParticipantType" where
  "ParticipantType_of v =
     (if v = 1 then Inr GROUP else if v = 2 then Inr TEACHER else if v = 3 then Inr ROOM
      else Inl (ValueError InvalidEnum))"

definition SemesterType_of :: "int \<Rightarrow> error + SemesterType" where
  "SemesterType_of v =
     (if v = 1 then Inr AUTUMN else if v = 2 then Inr SPRING
      else Inl (ValueError InvalidEnum))"

subsection \<open>\<^verbatim>\<open>Event\<close>\<close>

record Event =
  title :: pystr
  event_type :: pystr
  participant :: pystr
  location :: pystr
  comment :: pystr
  start_datetime :: datetime
  end_datetime :: datetime

definition DAILY_STARTS :: "pystr list" where
  "DAILY_STARTS =
     [ascii ''08:00'', ascii ''09:35'', ascii ''11:35'', ascii ''13:10'', ascii ''15:10'',
      ascii ''16:45'', ascii ''18:20'', ascii ''19:55'', ascii ''21:25'', ascii ''22:55'']"

definition get_daily_number :: "Event \<Rightarrow> error + int" where
  "get_daily_number self =
     (case index DAILY_STARTS (strftime_HM (start_datetime self)) of
        Inl e \<Rightarrow> Inl e
      | Inr i \<Rightarrow> Inr (i + 1))"

subsection \<open>\<^verbatim>\<open>Schedule\<close>\<close>

record Schedule =
  participant_type :: ParticipantType
  participant_id :: int
  academic_year :: int
  start_datetime_of_academic_year :: datetime

definition get_start_datetime_of_academic_year :: "int \<Rightarrow> error + datetime" where
  "get_start_datetime_of_academic_year y =
     (case datetime_init y 9 1 TZ_NAME of
        Inl e \<Rightarrow> Inl e
      | Inr first_september \<Rightarrow>
          (case timedelta_init 0 (weekday first_september) 0 0 of
             Inl e \<Rightarrow> Inl e
           | Inr td \<Rightarrow> datetime_sub first_september td))"

definition Schedule_init :: "int \<Rightarrow> int \<Rightarrow> int \<Rightarrow> error + Schedule" where
  "Schedule_init ptype pid y =
     (case ParticipantType_of ptype of
        Inl e \<Rightarrow> Inl e
      | Inr pt \<Rightarrow>
          (case get_start_datetime_of_academic_year y of
             Inl e \<Rightarrow> Inl e
           | Inr s \<Rightarrow>
               Inr \<lparr>participant_type = pt, participant_id = pid, academic_year = y,
                    start_datetime_of_academic_year = s\<rparr>))"

text \<open>\<^verbatim>\<open>get_semester_type(reference_date)\<close>. \<open>today\<close> is the date of
  \<^verbatim>\<open>datetime.now(tz=TZ_INFO)\<close>, read when no reference date is given. Both starts are
  computed before the comparison.\<close>

definition get_semester_type :: "date \<Rightarrow> date option \<Rightarrow> error + SemesterType" where
  "get_semester_type today reference_date =
     (let rd = (case reference_date of None \<Rightarrow> today | Some d \<Rightarrow> d)
      in case get_start_datetime_of_academic_year (year rd) of
           Inl e \<Rightarrow> Inl e
         | Inr s0 \<Rightarrow>
             (case get_start_datetime_of_academic_year (year rd + 1) of
                Inl e \<Rightarrow> Inl e
              | Inr s1 \<Rightarrow>
                  if date_ge rd (date_of s0) then Inr AUTUMN
                  else if date_lt rd (date_of s1) then Inr SPRING
                  else Inl SemesterTypeNotFoundError))"

subsection \<open>\<^verbatim>\<open>Schedule.get_events\<close>\<close>

text \<open>
  What the module reads of the response: the rows that \<^verbatim>\<open>soup.select("tbody tr")\<close>
  gives, each with its \<^verbatim>\<open>class\<close> attribute (a list of class names, or no attribute at all)
  and the texts of its \<^verbatim>\<open>td\<close> cells.
\<close>

record row =
  row_class :: "pystr list option"
  row_columns :: "pystr list"

text \<open>A value of the query dictionary, which is kept in insertion order.\<close>

datatype param = PInt int | PStr pystr

definition WEEKDAYS :: "pystr list" where
  "WEEKDAYS =
     [[1055, 1086, 1085, 1077, 1076, 1077, 1083, 1100, 1085, 1080, 1082],
      [1042, 1090, 1086, 1088, 1085, 1080, 1082],
      [1057, 1088, 1077, 1076, 1072],
      [1063, 1077, 1090, 1074, 1077, 1088, 1075],
      [1055, 1103, 1090, 1085, 1080, 1094, 1072],
      [1057, 1091, 1073, 1073, 1086, 1090, 1072],
      [1042, 1086, 1089, 1082, 1088, 1077, 1089, 1077, 1085, 1100, 1077]]"

text \<open>\<^verbatim>\<open>semester_type or self.get_semester_type()\<close>, then \<^verbatim>\<open>SemesterType(...)\<close>: the
  default is taken when the argument is \<^verbatim>\<open>None\<close> or any other false value, which for
  an integer is 0.\<close>

definition resolve_semester_type :: "date \<Rightarrow> int option \<Rightarrow> error + SemesterType" where
  "resolve_semester_type today semester_type =
     (case semester_type of
        None \<Rightarrow> get_semester_type today None
      | Some v \<Rightarrow> if v = 0 then get_semester_type today None else SemesterType_of v)"

definition fetch_params :: "Schedule \<Rightarrow> SemesterType \<Rightarrow> (string \<times> param) list" where
  "fetch_params self semester_type =
     [(''WhatShow'', PInt (ParticipantType_value (participant_type self))),
      (''schedule_semestr_id'',
         PStr (last2 (str_int (academic_year self)) @ str_int (SemesterType_value semester_type))),
      (''weeks'', PInt 0)]
     @ (if participant_type self = GROUP then [(''student_group_id'', PInt (participant_id self))]
        else if participant_type self = TEACHER then [(''teacher'', PInt (participant_id self))]
        else [])"

text \<open>The year part of the semester id in the words of the specification: the last
  two digits of the academic year. It is what \<open>fetch_params\<close> is compared with, not a
  part of the module.\<close>

definition last_two_digits :: "int \<Rightarrow> pystr" where
  "last_two_digits y = [nat (48 + y mod 100 div 10), nat (48 + y mod 10)]"

text \<open>\<^verbatim>\<open>list(map(int, time.split(":")))\<close> for one side of the time column.\<close>

fun map_int :: "pystr list \<Rightarrow> error + int list" where
  "map_int [] = Inr []"
| "map_int (s # ss) =
     (case int_str s of
        Inl e \<Rightarrow> Inl e
      | Inr v \<Rightarrow> (case map_int ss of Inl e \<Rightarrow> Inl e | Inr vs \<Rightarrow> Inr (v # vs)))"

definition parse_time :: "pystr \<Rightarrow> error + int list" where
  "parse_time t = map_int (split_sep 58 t)"

text \<open>Unpacking the generator over the pieces of the time column into two names:
  the first two pieces are converted, a third one is converted too before it is found
  to be one too many.\<close>

definition unpack_times :: "pystr list \<Rightarrow> error + int list \<times> int list" where
  "unpack_times parts =
     (case parts of
        [] \<Rightarrow> Inl (ValueError Unpack)
      | a # rest \<Rightarrow>
          (case parse_time a of
             Inl e \<Rightarrow> Inl e
           | Inr start_time \<Rightarrow>
               (case rest of
                  [] \<Rightarrow> Inl (ValueError Unpack)
                | b # rest' \<Rightarrow>
                    (case parse_time b of
                       Inl e \<Rightarrow> Inl e
                     | Inr end_time \<Rightarrow>
                         (case rest' of
                            [] \<Rightarrow> Inr (start_time, end_time)
                          | c # _ \<Rightarrow>
                              (case parse_time c of
                                 Inl e \<Rightarrow> Inl e
                               | Inr _ \<Rightarrow> Inl (ValueError Unpack)))))))"

text \<open>\<^verbatim>\<open>datetime.timedelta(hours=t[0], minutes=t[1])\<close>.\<close>

definition time_timedelta :: "int list \<Rightarrow> error + timedelta" where
  "time_timedelta t =
     (case getitem t 0 of
        Inl e \<Rightarrow> Inl e
      | Inr h \<Rightarrow> (case getitem t 1 of Inl e \<Rightarrow> Inl e | Inr m \<Rightarrow> timedelta_init 0 0 h m))"

text \<open>The start and end offsets of a row, from its column 1.\<close>

definition row_times :: "pystr list \<Rightarrow> error + timedelta \<times> timedelta" where
  "row_times cols =
     (case getitem cols 1 of
        Inl e \<Rightarrow> Inl e
      | Inr t \<Rightarrow>
          (case unpack_times (split_sep 45 t) of
             Inl e \<Rightarrow> Inl e
           | Inr (start_time, end_time) \<Rightarrow>
               (case time_timedelta start_time of
                  Inl e \<Rightarrow> Inl e
                | Inr start_timedelta \<Rightarrow>
                    (case time_timedelta end_time of
                       Inl e \<Rightarrow> Inl e
                     | Inr end_timedelta \<Rightarrow> Inr (start_timedelta, end_timedelta)))))"

text \<open>The body of the loop over the week numbers, for one token of column 2.\<close>

definition week_event ::
  "Schedule \<Rightarrow> int \<Rightarrow> timedelta \<Rightarrow> timedelta \<Rightarrow> pystr list \<Rightarrow> pystr \<Rightarrow> error + Event" where
  "week_event self weekday_index start_timedelta end_timedelta cols tok =
     (case int_str tok of
        Inl e \<Rightarrow> Inl e
      | Inr week_number \<Rightarrow>
     (case timedelta_init (week_number - 1) weekday_index 0 0 of
        Inl e \<Rightarrow> Inl e
      | Inr week_timedelta \<Rightarrow>
     (case datetime_add (start_datetime_of_academic_year self) week_timedelta of
        Inl e \<Rightarrow> Inl e
      | Inr s0 \<Rightarrow>
     (case datetime_add s0 start_timedelta of
        Inl e \<Rightarrow> Inl e
      | Inr start \<Rightarrow>
     (case datetime_add (start_datetime_of_academic_year self) week_timedelta of
        Inl e \<Rightarrow> Inl e
      | Inr e0 \<Rightarrow>
     (case datetime_add e0 end_timedelta of
        Inl e \<Rightarrow> Inl e
      | Inr end \<Rightarrow>
     (case getitem cols 3 of Inl e \<Rightarrow> Inl e | Inr c3 \<Rightarrow>
     (case getitem cols 4 of Inl e \<Rightarrow> Inl e | Inr c4 \<Rightarrow>
     (case getitem cols 5 of Inl e \<Rightarrow> Inl e | Inr c5 \<Rightarrow>
     (case getitem cols 6 of Inl e \<Rightarrow> Inl e | Inr c6 \<Rightarrow>
     (case getitem cols 7 of Inl e \<Rightarrow> Inl e | Inr c7 \<Rightarrow>
        Inr \<lparr>title = c3, event_type = c4, participant = c5, location = c6, comment = c7,
             start_datetime = start, end_datetime = end\<rparr>)))))))))))"

text \<open>
  \<^verbatim>\<open>get_events\<close> is a generator: what a caller sees of it is the Events it yields, in
  order, and the exception that ends the iteration, if one does. Events yielded before
  an exception have been delivered.
\<close>

type_synonym events = "Event list \<times> error option"

fun week_loop ::
  "Schedule \<Rightarrow> int \<Rightarrow> timedelta \<Rightarrow> timedelta \<Rightarrow> pystr list \<Rightarrow> pystr list \<Rightarrow> events" where
  "week_loop self weekday_index st et cols [] = ([], None)"
| "week_loop self weekday_index st et cols (tok # toks) =
     (case week_event self weekday_index st et cols tok of
        Inl e \<Rightarrow> ([], Some e)
      | Inr ev \<Rightarrow>
          (case week_loop self weekday_index st et cols toks of
             (evs, err) \<Rightarrow> (ev # evs, err)))"

text \<open>The header part of a row: the weekday index after it.\<close>

definition row_weekday :: "int \<Rightarrow> pystr list \<Rightarrow> pystr list \<Rightarrow> error + int" where
  "row_weekday weekday_index cls cols =
     (if ascii ''dayheader'' \<in> set cls
      then (case getitem cols 0 of Inl e \<Rightarrow> Inl e | Inr c \<Rightarrow> index WEEKDAYS c)
      else Inr weekday_index)"

text \<open>The data part of a row: the Events of its week numbers.\<close>

definition row_events :: "Schedule \<Rightarrow> int \<Rightarrow> pystr list \<Rightarrow> events" where
  "row_events self weekday_index cols =
     (case row_times cols of
        Inl e \<Rightarrow> ([], Some e)
      | Inr (start_timedelta, end_timedelta) \<Rightarrow>
          (case getitem cols 2 of
             Inl e \<Rightarrow> ([], Some e)
           | Inr weeks \<Rightarrow>
               week_loop self weekday_index start_timedelta end_timedelta cols (split_ws weeks)))"

text \<open>The loop over the rows, with the running \<open>weekday_index\<close>.\<close>

fun rows_loop :: "Schedule \<Rightarrow> int \<Rightarrow> row list \<Rightarrow> events" where
  "rows_loop self weekday_index [] = ([], None)"
| "rows_loop self weekday_index (r # rs) =
     (case row_class r of
        None \<Rightarrow> ([], Some KeyError)
      | Some cls \<Rightarrow>
          (case row_weekday weekday_index cls (row_columns r) of
             Inl e \<Rightarrow> ([], Some e)
           | Inr weekday_index' \<Rightarrow>
               if ascii ''noinfo'' \<in> set cls then rows_loop self weekday_index' rs
               else
                 (case row_events self weekday_index' (row_columns r) of
                    (evs, Some e) \<Rightarrow> (evs, Some e)
                  | (evs, None) \<Rightarrow>
                      (case rows_loop self weekday_index' rs of
                         (evs', err) \<Rightarrow> (evs @ evs', err)))))"

declare rows_loop.simps [simp del]

text \<open>
  \<open>session\<close> stands for the transport and the HTML parser together: the GET of the
  query at \<^verbatim>\<open>api/new_schedule_api\<close> under \<^verbatim>\<open>base_url\<close> with the timeout, \<^verbatim>\<open>raise_for_status\<close>
  and the selection of the rows. It fails with the transport's exception or gives the
  rows.
\<close>

definition get_events ::
  "Schedule \<Rightarrow> date \<Rightarrow> ((string \<times> param) list \<Rightarrow> error + row list) \<Rightarrow> int option \<Rightarrow> events" where
  "get_events self today session semester_type =
     (case resolve_semester_type today semester_type of
        Inl e \<Rightarrow> ([], Some e)
      | Inr st \<Rightarrow>
          (case session (fetch_params self st) of
             Inl e \<Rightarrow> ([], Some e)
           | Inr rows \<Rightarrow> rows_loop self 0 rows))"

section \<open>Concrete inputs\<close>

text \<open>\<^verbatim>\<open>Schedule(1, 2575, 2023)\<close> and the table of the module's own test: a Monday header
  row that carries a lesson, five empty days, and a lesson in week 52 under the Saturday
  header. \<open>friday_rows\<close> has the same lesson under the Friday header instead, and
  \<open>backwards_rows\<close> a lesson that ends before it starts.\<close>

definition schedule_2023 :: Schedule where
  "schedule_2023 =
     \<lparr>participant_type = GROUP, participant_id = 2575, academic_year = 2023,
      start_datetime_of_academic_year =
        \<lparr>year = 2023, month = 8, day = 28, hour = 0, minute = 0, second = 0, tzinfo = TZ_NAME\<rparr>\<rparr>"

definition lesson_cells :: "pystr \<Rightarrow> pystr \<Rightarrow> pystr \<Rightarrow> string \<Rightarrow> pystr list" where
  "lesson_cells c0 tm wk n =
     [c0, tm, wk, ascii (''name'' @ n), ascii (''event_type'' @ n), ascii (''fio'' @ n),
      ascii (''location'' @ n), ascii (''comment'' @ n)]"

definition lesson :: "string \<Rightarrow> datetime \<Rightarrow> datetime \<Rightarrow> Event" where
  "lesson n s e =
     \<lparr>title = ascii (''name'' @ n), event_type = ascii (''event_type'' @ n),
      participant = ascii (''fio'' @ n), location = ascii (''location'' @ n),
      comment = ascii (''comment'' @ n), start_datetime = s, end_datetime = e\<rparr>"

definition at :: "int \<Rightarrow> int \<Rightarrow> int \<Rightarrow> int \<Rightarrow> int \<Rightarrow> datetime" where
  "at y m d h mi =
     \<lparr>year = y, month = m, day = d, hour = h, minute = mi, second = 0, tzinfo = TZ_NAME\<rparr>"

definition empty_day :: "nat \<Rightarrow> row" where
  "empty_day i =
     \<lparr>row_class = Some [ascii ''noinfo'', ascii ''dayheader''], row_columns = [WEEKDAYS ! i]\<rparr>"

definition monday_row :: row where
  "monday_row =
     \<lparr>row_class = Some [ascii ''dayheader''],
      row_columns = lesson_cells (WEEKDAYS ! 0) (ascii ''08:00-09:20'') (ascii ''1'') ''0''\<rparr>"

definition late_row :: row where
  "late_row =
     \<lparr>row_class = Some [ascii ''extra''],
      row_columns = lesson_cells [] (ascii ''22:55-23:00'') (ascii ''52'') ''1''\<rparr>"

definition test_rows :: "row list" where
  "test_rows =
     [monday_row, empty_day 1, empty_day 2, empty_day 3, empty_day 4, empty_day 5, late_row]"

definition friday_rows :: "row list" where
  "friday_rows = [empty_day 4, late_row]"

definition backwards_rows :: "row list" where
  "backwards_rows =
     [\<lparr>row_class = Some [ascii ''extra''],
       row_columns = lesson_cells [] (ascii ''09:20-08:00'') (ascii ''1'') ''0''\<rparr>]"

text \<open>\<^verbatim>\<open>Schedule(1, 2575, 7)\<close>, a schedule of a year of one digit.\<close>

definition schedule_7 :: Schedule where
  "schedule_7 =
     \<lparr>participant_type = GROUP, participant_id = 2575, academic_year = 7,
      start_datetime_of_academic_year =
        \<lparr>year = 7, month = 8, day = 27, hour = 0, minute = 0, second = 0, tzinfo = TZ_NAME\<rparr>\<rparr>"

text \<open>The cells of a lesson held in weeks 1, 3 and 5.\<close>

definition repeated_cells :: "pystr list" where
  "repeated_cells = lesson_cells [] (ascii ''08:00-09:20'') (ascii ''1 3 5'') ''0''"

text \<open>The cells of a lesson listed for week 1 and for a week beyond the year 9999.\<close>

definition far_cells :: "pystr list" where
  "far_cells = lesson_cells [] (ascii ''08:00-09:20'') (ascii ''1 600000'') ''0''"

section \<open>Evaluating the model\<close>

lemmas date_defs = datetime_init_def fits_c_int_def C_INT_MIN_def C_INT_MAX_def
  MINYEAR_def MAXYEAR_def MAXORDINAL_def days_in_month_def
  DAYS_IN_MONTH_def DAYS_BEFORE_MONTH_def timedelta_init_def timedelta_neg_def weekday_def
  toordinal_def ymd2ord_def days_before_year_def days_before_month_def is_leap_def
  datetime_sub_def datetime_add_def time_seconds_def ord2ymd_def month_day_def
  DI400Y_def DI100Y_def DI4Y_def Let_def

lemmas text_defs = ascii_def int_str_def ascii_isspace_def ascii_isdigit_def int_unsigned_def
  isspace_def split_ws_def parse_time_def unpack_times_def getitem_def

lemmas row_defs = row_weekday_def row_events_def row_times_def time_timedelta_def week_event_def
  WEEKDAYS_def lesson_cells_def lesson_def at_def empty_day_def schedule_2023_def

lemma start_2023: "get_start_datetime_of_academic_year 2023 = Inr (at 2023 8 28 0 0)"
  by (simp add: get_start_datetime_of_academic_year_def at_def date_defs)

lemma Schedule_init_2023: "Schedule_init 1 2575 2023 = Inr schedule_2023"
  by (simp add: Schedule_init_def ParticipantType_of_def start_2023 schedule_2023_def at_def)

lemma monday_events:
  "row_events schedule_2023 0 (row_columns monday_row) =
     ([lesson ''0'' (at 2023 8 28 8 0) (at 2023 8 28 9 20)], None)"
  by (simp add: monday_row_def row_defs date_defs text_defs)

lemma late_events_saturday:
  "row_events schedule_2023 5 (row_columns late_row) =
     ([lesson ''1'' (at 2024 8 24 22 55) (at 2024 8 24 23 0)], None)"
  by (simp add: late_row_def row_defs date_defs text_defs)

lemma late_events_friday:
  "row_events schedule_2023 4 (row_columns late_row) =
     ([lesson ''1'' (at 2024 8 23 22 55) (at 2024 8 23 23 0)], None)"
  by (simp add: late_row_def row_defs date_defs text_defs)

lemma index_weekday: "i < 7 \<Longrightarrow> index WEEKDAYS (WEEKDAYS ! i) = Inr (int i)"
proof -
  assume "i < 7"
  then consider "i = 0" | "i = 1" | "i = 2" | "i = 3" | "i = 4" | "i = 5" | "i = 6"
    by linarith
  then show ?thesis by cases (simp_all add: WEEKDAYS_def)
qed

lemma empty_day_step:
  "i < 7 \<Longrightarrow> rows_loop self wi (empty_day i # rs) = rows_loop self (int i) rs"
  by (simp add: rows_loop.simps empty_day_def row_weekday_def getitem_def index_weekday ascii_def)

lemma late_row_step:
  "rows_loop self wi [late_row] = row_events self wi (row_columns late_row)"
  by (simp add: rows_loop.simps late_row_def row_weekday_def ascii_def split: prod.splits option.splits)

lemma monday_row_step:
  "rows_loop self wi (monday_row # rs) =
     (case row_events self 0 (row_columns monday_row) of
        (evs, Some e) \<Rightarrow> (evs, Some e)
      | (evs, None) \<Rightarrow> (case rows_loop self 0 rs of (evs', err) \<Rightarrow> (evs @ evs', err)))"
  by (simp add: rows_loop.simps monday_row_def row_weekday_def getitem_def lesson_cells_def
      WEEKDAYS_def ascii_def)

lemma test_rows_events:
  "rows_loop schedule_2023 0 test_rows =
     ([lesson ''0'' (at 2023 8 28 8 0) (at 2023 8 28 9 20),
       lesson ''1'' (at 2024 8 24 22 55) (at 2024 8 24 23 0)], None)"
proof -
  have "rows_loop schedule_2023 0 (tl test_rows) = rows_loop schedule_2023 5 [late_row]"
    by (simp add: test_rows_def empty_day_step)
  then have "rows_loop schedule_2023 0 (tl test_rows) =
      ([lesson ''1'' (at 2024 8 24 22 55) (at 2024 8 24 23 0)], None)"
    by (simp add: late_row_step late_events_saturday)
  moreover have "test_rows = monday_row # tl test_rows"
    by (simp add: test_rows_def)
  ultimately show ?thesis
    using monday_row_step [of schedule_2023 0 "tl test_rows"] by (simp add: monday_events)
qed

lemma friday_rows_events:
  "rows_loop schedule_2023 0 friday_rows =
     ([lesson ''1'' (at 2024 8 23 22 55) (at 2024 8 23 23 0)], None)"
  by (simp add: friday_rows_def empty_day_step late_row_step late_events_friday)

lemma resolve_autumn: "resolve_semester_type today (Some 1) = Inr AUTUMN"
  by (simp add: resolve_semester_type_def SemesterType_of_def)

lemma get_events_given_rows:
  "get_events self today (\<lambda>q. Inr rows) (Some 1) = rows_loop self 0 rows"
  by (simp add: get_events_def resolve_autumn)

section \<open>Header rows, empty rows and data rows\<close>


lemma noinfo_row:
  assumes "row_class r = Some cls" and "ascii ''noinfo'' \<in> set cls"
  shows "rows_loop self wi (r # rs) =
           (case row_weekday wi cls (row_columns r) of
              Inl e \<Rightarrow> ([], Some e)
            | Inr wi' \<Rightarrow> rows_loop self wi' rs)"
  using assms by (simp add: rows_loop.simps split: sum.splits)

lemma data_row:
  assumes "row_class r = Some cls" and "ascii ''noinfo'' \<notin> set cls"
    and "row_weekday wi cls (row_columns r) = Inr wi'"
  shows "rows_loop self wi (r # rs) =
           (case row_events self wi' (row_columns r) of
              (evs, Some e) \<Rightarrow> (evs, Some e)
            | (evs, None) \<Rightarrow> (case rows_loop self wi' rs of (evs', err) \<Rightarrow> (evs @ evs', err)))"
  using assms by (simp add: rows_loop.simps)




text \<open>
  C8: a row whose class list contains \<open>noinfo\<close> yields no Event, whatever its cells hold.
  When its class list contains \<open>dayheader\<close> as well, the weekday found for its first
  cell is the one the rows after it are read under (and the lookup of the first cell can
  still fail); otherwise the rows after it are read under the running weekday.
\<close>

theorem noinfo_row_yields_no_event:
  assumes "row_class r = Some cls" and "ascii ''noinfo'' \<in> set cls"
  shows "rows_loop self wi (r # rs) =
           (if ascii ''dayheader'' \<in> set cls
            then (case getitem (row_columns r) 0 of
                    Inl e \<Rightarrow> ([], Some e)
                  | Inr c \<Rightarrow>
                      (case index WEEKDAYS c of
                         Inl e \<Rightarrow> ([], Some e)
                       | Inr k \<Rightarrow> rows_loop self k rs))
            else rows_loop self wi rs)"
  using noinfo_row [OF assms, of self wi rs]
  by (simp add: row_weekday_def split: sum.splits)

theorem noinfo_row_yields_no_event_witness:
  "row_class (empty_day 4) = Some [ascii ''noinfo'', ascii ''dayheader'']
   \<and> ascii ''noinfo'' \<in> set [ascii ''noinfo'', ascii ''dayheader'']
   \<and> rows_loop schedule_2023 0 [empty_day 4] = ([], None)
   \<and> rows_loop schedule_2023 0 [empty_day 4, late_row] = rows_loop schedule_2023 4 [late_row]"
proof -
  have c: "row_class (empty_day 4) = Some [ascii ''noinfo'', ascii ''dayheader'']"
    by (simp add: empty_day_def)
  have n: "ascii ''noinfo'' \<in> set [ascii ''noinfo'', ascii ''dayheader'']"
    by simp
  have i: "index WEEKDAYS (WEEKDAYS ! 4) = Inr 4"
    using index_weekday [of 4] by simp
  have g: "getitem (row_columns (empty_day 4)) 0 = Inr (WEEKDAYS ! 4)"
    by (simp add: empty_day_def getitem_def)
  have "rows_loop schedule_2023 0 [empty_day 4] = ([], None)"
    using noinfo_row_yields_no_event [OF c n, of schedule_2023 0 "[]"]
    by (simp add: g i rows_loop.simps)
  moreover have "rows_loop schedule_2023 0 [empty_day 4, late_row] = rows_loop schedule_2023 4 [late_row]"
    using noinfo_row_yields_no_event [OF c n, of schedule_2023 0 "[late_row]"]
    by (simp add: g i)
  ultimately show ?thesis using c n by simp
qed

section \<open>The test table\<close>

text \<open>
  C2, as the code has it: for academic year 2023, the row with time column
  \<open>22:55-23:00\<close> and week column \<open>52\<close> yields an Event that starts at 2024-08-24T22:55
  when it stands under the Saturday header, as in the module's test; the whole table
  yields the two Events the test expects.
\<close>

theorem week_52_under_saturday_header:
  "get_events schedule_2023 \<lparr>year = 2023, month = 9, day = 1\<rparr> (\<lambda>q. Inr test_rows) (Some 1) =
     ([lesson ''0'' (at 2023 8 28 8 0) (at 2023 8 28 9 20),
       lesson ''1'' (at 2024 8 24 22 55) (at 2024 8 24 23 0)], None)
   \<and> Schedule_init 1 2575 2023 = Inr schedule_2023
   \<and> tzinfo (at 2024 8 24 22 55) = TZ_NAME"
  by (simp add: get_events_given_rows test_rows_events Schedule_init_2023) (simp add: at_def)

text \<open>Under the Friday header the same row starts a day earlier, on 2024-08-23.\<close>

theorem week_52_under_friday_header_counterexample:
  "get_events schedule_2023 \<lparr>year = 2023, month = 9, day = 1\<rparr> (\<lambda>q. Inr friday_rows) (Some 1) =
     ([lesson ''1'' (at 2024 8 23 22 55) (at 2024 8 23 23 0)], None)
   \<and> at 2024 8 23 22 55 \<noteq> at 2024 8 24 22 55"
  by (simp add: get_events_given_rows friday_rows_events) (simp add: at_def)

section \<open>Resolving the semester type\<close>

lemma start_error_kinds:
  "get_start_datetime_of_academic_year y = Inl e \<Longrightarrow> e = ValueError OutOfRange \<or> e = OverflowError"
  by (auto simp: get_start_datetime_of_academic_year_def datetime_init_def timedelta_init_def
      datetime_sub_def timedelta_neg_def datetime_add_def Let_def
      split: sum.splits if_splits prod.splits)

lemma semester_error_kinds:
  "get_semester_type today rd = Inl e \<Longrightarrow>
     e = ValueError OutOfRange \<or> e = OverflowError \<or> e = SemesterTypeNotFoundError"
  by (auto simp: get_semester_type_def Let_def split: sum.splits if_splits dest: start_error_kinds)

section \<open>Daily numbers and the query\<close>

lemma index_Inl_iff: "index xs x = Inl e \<longleftrightarrow> e = ValueError NotInList \<and> x \<notin> set xs"
  by (induction xs) (auto split: sum.splits)

lemma index_Inr_iff:
  "distinct xs \<Longrightarrow> index xs x = Inr i \<longleftrightarrow> 0 \<le> i \<and> nat i < length xs \<and> xs ! nat i = x"
proof (induction xs arbitrary: i)
  case Nil
  then show ?case by simp
next
  case (Cons y ys)
  show ?case
  proof (cases "y = x")
    case True
    with Cons.prems show ?thesis
      by (cases "nat i") (auto simp: nth_Cons')
  next
    case False
    have "index (y # ys) x = Inr i \<longleftrightarrow> index ys x = Inr (i - 1)"
      using False by (auto split: sum.splits)
    also have "\<dots> \<longleftrightarrow> 0 \<le> i - 1 \<and> nat (i - 1) < length ys \<and> ys ! nat (i - 1) = x"
      using Cons.IH [of "i - 1"] Cons.prems by simp
    also have "\<dots> \<longleftrightarrow> 0 \<le> i \<and> nat i < length (y # ys) \<and> (y # ys) ! nat i = x"
      using False by (cases "i \<le> 0") (auto simp: nth_Cons' nat_diff_distrib)
    finally show ?thesis .
  qed
qed

lemma DAILY_STARTS_distinct: "distinct DAILY_STARTS" "length DAILY_STARTS = 10"
  by (simp_all add: DAILY_STARTS_def ascii_def)

lemma digits_not_Nil: "digits n \<noteq> []"
  by (subst digits.simps) simp

lemma last_digits: "last (digits n) = 48 + n mod 10"
  by (subst digits.simps) simp

lemma last2_digits:
  assumes "10 \<le> n"
  shows "last2 (digits n) = [48 + n div 10 mod 10, 48 + n mod 10]"
proof -
  have "digits n = digits (n div 10) @ [48 + n mod 10]"
    using assms by (subst digits.simps) simp
  moreover have "digits (n div 10) = butlast (digits (n div 10)) @ [48 + n div 10 mod 10]"
    using append_butlast_last_id [OF digits_not_Nil, of "n div 10"] by (simp add: last_digits)
  ultimately have "digits n = butlast (digits (n div 10)) @ [48 + n div 10 mod 10, 48 + n mod 10]"
    by simp
  then show ?thesis by (simp add: last2_def)
qed

lemma str_int_SemesterType: "str_int (SemesterType_value st) = [nat (48 + SemesterType_value st)]"
  by (cases st) (simp_all add: str_int_def digits.simps)

section \<open>The calendar\<close>

lemma DI_consts: "DI400Y = 146097" "DI100Y = 36524" "DI4Y = 1461"
  by (simp_all add: DI400Y_def DI100Y_def DI4Y_def days_before_year_def)

lemma days_before_year_cycles:
  assumes "0 \<le> b" "b < 4" "0 \<le> c" "c < 25" "0 \<le> d" "d < 4"
  shows "days_before_year (400 * a + 100 * b + 4 * c + d + 1) = 146097 * a + 36524 * b + 1461 * c + 365 * d"
proof -
  let ?q = "400 * a + 100 * b + 4 * c + d"
  have "?q div 4 = 100 * a + 25 * b + c"
    by (rule int_div_pos_eq[where r = d]) (use assms in auto)
  moreover have "?q div 100 = 4 * a + b"
    by (rule int_div_pos_eq[where r = "4 * c + d"]) (use assms in auto)
  moreover have "?q div 400 = a"
    by (rule int_div_pos_eq[where r = "100 * b + 4 * c + d"]) (use assms in auto)
  ultimately show ?thesis
    by (simp add: days_before_year_def Let_def)
qed

lemma mod_eq_0_range:
  fixes x m :: int
  assumes "0 < x" "x \<le> m"
  shows "x mod m = 0 \<longleftrightarrow> x = m"
proof (cases "x = m")
  case True
  then show ?thesis by simp
next
  case False
  with assms have "x mod m = x" by simp
  then show ?thesis using assms False by simp
qed

lemma is_leap_cycles:
  assumes "0 \<le> b" "b < 4" "0 \<le> c" "c < 25" "0 \<le> d" "d < 4"
  shows "is_leap (400 * a + 100 * b + 4 * c + d + 1) \<longleftrightarrow> d = 3 \<and> (c \<noteq> 24 \<or> b = 3)"
proof -
  let ?y = "400 * a + 100 * b + 4 * c + d + 1"
  have m4: "?y mod 4 = (d + 1) mod 4"
  proof -
    have "?y = (d + 1) + 4 * (100 * a + 25 * b + c)" by simp
    then show ?thesis by (metis mod_mult_self2)
  qed
  have m100: "?y mod 100 = (4 * c + d + 1) mod 100"
  proof -
    have "?y = (4 * c + d + 1) + 100 * (4 * a + b)" by simp
    then show ?thesis by (metis mod_mult_self2)
  qed
  have m400: "?y mod 400 = (100 * b + 4 * c + d + 1) mod 400"
  proof -
    have "?y = (100 * b + 4 * c + d + 1) + 400 * a" by simp
    then show ?thesis by (metis mod_mult_self2)
  qed
  have 1: "(d + 1) mod 4 = 0 \<longleftrightarrow> d = 3"
    using mod_eq_0_range [of "d + 1" 4] assms by auto
  have 2: "(4 * c + d + 1) mod 100 = 0 \<longleftrightarrow> c = 24" if "d = 3"
    using mod_eq_0_range [of "4 * c + d + 1" 100] assms that by auto
  have 3: "(100 * b + 4 * c + d + 1) mod 400 = 0 \<longleftrightarrow> b = 3" if "d = 3" "c = 24"
    using mod_eq_0_range [of "100 * b + 4 * c + d + 1" 400] assms that by auto
  show ?thesis unfolding is_leap_def m4 m100 m400 using 1 2 3 by (cases "d = 3"; cases "c = 24") simp_all
qed

lemma year_decomp:
  fixes q :: int
  obtains a b c d where "q = 400 * a + 100 * b + 4 * c + d"
    "0 \<le> b" "b < 4" "0 \<le> c" "c < 25" "0 \<le> d" "d < 4"
proof -
  define a where "a = q div 400"
  define r where "r = q mod 400"
  define b where "b = r div 100"
  define s where "s = r mod 100"
  define c where "c = s div 4"
  define d where "d = s mod 4"
  have r: "0 \<le> r" "r < 400" and s: "0 \<le> s" "s < 100" and d: "0 \<le> d" "d < 4"
    by (simp_all add: r_def s_def d_def)
  have "q = 400 * a + r" by (simp add: a_def r_def)
  moreover have "r = 100 * b + s" by (simp add: b_def s_def)
  moreover have "s = 4 * c + d" by (simp add: c_def d_def)
  ultimately have "q = 400 * a + 100 * b + 4 * c + d" by simp
  moreover have "0 \<le> b" "b < 4" using r unfolding b_def by arith+
  moreover have "0 \<le> c" "c < 25" using s unfolding c_def by arith+
  ultimately show thesis using that d by blast
qed

text \<open>Every day of a year but the last of a leap year, which \<open>ord2ymd\<close> treats apart.\<close>

lemma month_day_all: "list_all (\<lambda>n. month_day_ok n True \<and> month_day_ok n False) [0..364]"
  by code_simp

lemma month_day_correct:
  assumes "0 \<le> n" "n < 365"
  shows "month_day_ok n leapyear"
proof -
  have "n \<in> set [0..364]" using assms by simp
  with month_day_all have "month_day_ok n True \<and> month_day_ok n False"
    unfolding list_all_iff by blast
  then show ?thesis by (cases leapyear) simp_all
qed

lemma ord2ymd_correct:
  "case ord2ymd n of (y, m, d) \<Rightarrow>
     ymd2ord y m d = n \<and> 1 \<le> m \<and> m \<le> 12 \<and> 1 \<le> d \<and> d \<le> days_in_month y m"
proof -
  define a where "a = (n - 1) div 146097"
  define r1 where "r1 = (n - 1) mod 146097"
  define b where "b = r1 div 36524"
  define r2 where "r2 = r1 mod 36524"
  define c where "c = r2 div 1461"
  define r3 where "r3 = r2 mod 1461"
  define d where "d = r3 div 365"
  define r4 where "r4 = r3 mod 365"
  have o: "ord2ymd n =
      (if d = 4 \<or> b = 4 then (a * 400 + 1 + b * 100 + c * 4 + d - 1, 12, 31)
       else (case month_day r4 (d = 3 \<and> (c \<noteq> 24 \<or> b = 3)) of
               (m, dd) \<Rightarrow> (a * 400 + 1 + b * 100 + c * 4 + d, m, dd)))"
    unfolding ord2ymd_def Let_def DI_consts a_def r1_def b_def r2_def c_def r3_def d_def r4_def
    by (rule refl)
  have r1: "0 \<le> r1" "r1 < 146097" and r2: "0 \<le> r2" "r2 < 36524"
    and r3: "0 \<le> r3" "r3 < 1461" and r4: "0 \<le> r4" "r4 < 365"
    by (simp_all add: r1_def r2_def r3_def r4_def)
  have e0: "n - 1 = 146097 * a + r1" by (simp add: a_def r1_def)
  have e1: "r1 = 36524 * b + r2" by (simp add: b_def r2_def)
  have e2: "r2 = 1461 * c + r3" by (simp add: c_def r3_def)
  have e3: "r3 = 365 * d + r4" by (simp add: d_def r4_def)
  have b: "0 \<le> b" "b \<le> 4" using r1 unfolding b_def by arith+
  have c: "0 \<le> c" "c < 25" using r2 unfolding c_def by arith+
  have d: "0 \<le> d" "d \<le> 4" using r3 unfolding d_def by arith+
  consider (B) "b = 4" | (D) "b < 4" "d = 4" | (R) "b < 4" "d < 4"
    using b d by linarith
  then show ?thesis
  proof cases
    case B
    then have z: "r2 = 0" "c = 0" "r3 = 0" "d = 0" "r4 = 0"
      using e1 e2 e3 r1 r2 r3 r4 c d by auto
    have y: "a * 400 + 1 + b * 100 + c * 4 + d - 1 = 400 * a + 100 * 3 + 4 * 24 + 3 + 1"
      using B z by simp
    have "days_before_year (400 * a + 100 * 3 + 4 * 24 + 3 + 1) = 146097 * a + 36524 * 3 + 1461 * 24 + 365 * 3"
      by (rule days_before_year_cycles) auto
    moreover have "is_leap (400 * a + 100 * 3 + 4 * 24 + 3 + 1)"
      using is_leap_cycles [of 3 24 3 a] by simp
    ultimately show ?thesis
      using B e0 e1 z unfolding o y
      by (simp add: ymd2ord_def days_before_month_def days_in_month_def
          DAYS_BEFORE_MONTH_def DAYS_IN_MONTH_def)
  next
    case D
    then have z: "r4 = 0" using e3 r3 r4 by auto
    have c': "c < 24" using e2 e3 r2 D z by auto
    have y: "a * 400 + 1 + b * 100 + c * 4 + d - 1 = 400 * a + 100 * b + 4 * c + 3 + 1"
      using D by simp
    have "days_before_year (400 * a + 100 * b + 4 * c + 3 + 1) = 146097 * a + 36524 * b + 1461 * c + 365 * 3"
      by (rule days_before_year_cycles) (use b c D in auto)
    moreover have "is_leap (400 * a + 100 * b + 4 * c + 3 + 1)"
      using is_leap_cycles [of b c 3 a] b c c' D by simp
    ultimately show ?thesis
      using D e0 e1 e2 e3 z unfolding o y
      by (simp add: ymd2ord_def days_before_month_def days_in_month_def
          DAYS_BEFORE_MONTH_def DAYS_IN_MONTH_def)
  next
    case R
    define L where "L \<longleftrightarrow> d = 3 \<and> (c \<noteq> 24 \<or> b = 3)"
    obtain m dd where md: "month_day r4 L = (m, dd)" by (cases "month_day r4 L")
    have ok: "1 \<le> m" "m \<le> 12" "1 \<le> dd"
      "dd \<le> DAYS_IN_MONTH ! nat m + (if m = 2 \<and> L then 1 else 0)"
      "DAYS_BEFORE_MONTH ! nat m + (if m > 2 \<and> L then 1 else 0) + dd = r4 + 1"
      using month_day_correct [OF r4, of L] md by (simp_all add: month_day_ok_def)
    have y: "a * 400 + 1 + b * 100 + c * 4 + d = 400 * a + 100 * b + 4 * c + d + 1"
      by simp
    have dy: "days_before_year (400 * a + 100 * b + 4 * c + d + 1) = 146097 * a + 36524 * b + 1461 * c + 365 * d"
      by (rule days_before_year_cycles) (use b c d R in auto)
    have ly: "is_leap (400 * a + 100 * b + 4 * c + d + 1) \<longleftrightarrow> L"
      unfolding L_def by (rule is_leap_cycles) (use b c d R in auto)
    have "ord2ymd n = (400 * a + 100 * b + 4 * c + d + 1, m, dd)"
      using R md unfolding o L_def [symmetric] y by simp
    moreover have "ymd2ord (400 * a + 100 * b + 4 * c + d + 1) m dd = n"
      using ok(5) e0 e1 e2 e3 by (simp add: ymd2ord_def days_before_month_def dy ly)
    moreover have "dd \<le> days_in_month (400 * a + 100 * b + 4 * c + d + 1) m"
      using ok(4) by (auto simp: days_in_month_def ly DAYS_IN_MONTH_def)
    ultimately show ?thesis using ok(1-3) by simp
  qed
qed

lemma days_before_year_Suc:
  "days_before_year (y + 1) = days_before_year y + 365 + (if is_leap y then 1 else 0)"
proof -
  obtain a b c d where q: "y - 1 = 400 * a + 100 * b + 4 * c + d"
    and r: "0 \<le> b" "b < 4" "0 \<le> c" "c < 25" "0 \<le> d" "d < 4"
    by (rule year_decomp)
  have y: "y = 400 * a + 100 * b + 4 * c + d + 1" using q by simp
  have dy: "days_before_year y = 146097 * a + 36524 * b + 1461 * c + 365 * d"
    unfolding y by (rule days_before_year_cycles[OF r])
  have ly: "is_leap y \<longleftrightarrow> d = 3 \<and> (c \<noteq> 24 \<or> b = 3)"
    unfolding y by (rule is_leap_cycles[OF r])
  consider (d) "d < 3" | (c) "d = 3" "c < 24" | (b) "d = 3" "c = 24" "b < 3" | (a) "d = 3" "c = 24" "b = 3"
    using r by linarith
  then show ?thesis
  proof cases
    case d
    have "y + 1 = 400 * a + 100 * b + 4 * c + (d + 1) + 1" using y by simp
    moreover have "days_before_year (400 * a + 100 * b + 4 * c + (d + 1) + 1) = 146097 * a + 36524 * b + 1461 * c + 365 * (d + 1)"
      by (rule days_before_year_cycles) (use r d in auto)
    ultimately show ?thesis using dy ly d by simp
  next
    case c
    have "y + 1 = 400 * a + 100 * b + 4 * (c + 1) + 0 + 1" using y c by simp
    moreover have "days_before_year (400 * a + 100 * b + 4 * (c + 1) + 0 + 1) = 146097 * a + 36524 * b + 1461 * (c + 1) + 365 * 0"
      by (rule days_before_year_cycles) (use r c in auto)
    ultimately show ?thesis using dy ly c by simp
  next
    case b
    have "y + 1 = 400 * a + 100 * (b + 1) + 4 * 0 + 0 + 1" using y b by simp
    moreover have "days_before_year (400 * a + 100 * (b + 1) + 4 * 0 + 0 + 1) = 146097 * a + 36524 * (b + 1) + 1461 * 0 + 365 * 0"
      by (rule days_before_year_cycles) (use r b in auto)
    ultimately show ?thesis using dy ly b by simp
  next
    case a
    have "y + 1 = 400 * (a + 1) + 100 * 0 + 4 * 0 + 0 + 1" using y a by simp
    moreover have "days_before_year (400 * (a + 1) + 100 * 0 + 4 * 0 + 0 + 1) = 146097 * (a + 1) + 36524 * 0 + 1461 * 0 + 365 * 0"
      by (rule days_before_year_cycles) auto
    ultimately show ?thesis using dy ly a by simp
  qed
qed

lemma days_before_year_mono: "y \<le> z \<Longrightarrow> days_before_year y \<le> days_before_year z"
proof (induction z rule: int_ge_induct)
  case base
  then show ?case by simp
next
  case (step i)
  then show ?case using days_before_year_Suc [of i] by (simp split: if_splits)
qed

text \<open>The days of a year up to and including a valid month and day.\<close>

lemma month_cases:
  fixes m :: int
  assumes "1 \<le> m" "m \<le> 12"
  obtains "m = 1" | "m = 2" | "m = 3" | "m = 4" | "m = 5" | "m = 6"
    | "m = 7" | "m = 8" | "m = 9" | "m = 10" | "m = 11" | "m = 12"
proof -
  have "m = 1 \<or> m = 2 \<or> m = 3 \<or> m = 4 \<or> m = 5 \<or> m = 6
      \<or> m = 7 \<or> m = 8 \<or> m = 9 \<or> m = 10 \<or> m = 11 \<or> m = 12"
    using assms by arith
  then show thesis using that by blast
qed

lemma day_of_year_bounds:
  assumes "1 \<le> m" "m \<le> 12" "1 \<le> d" "d \<le> days_in_month y m"
  shows "0 < days_before_month y m + d"
    and "days_before_month y m + d \<le> 365 + (if is_leap y then 1 else 0)"
  using assms(1,2)
  by (cases m rule: month_cases;
      use assms(3,4) in \<open>simp add: days_before_month_def days_in_month_def DAYS_BEFORE_MONTH_def DAYS_IN_MONTH_def split: if_splits\<close>)+

lemma days_before_month_mono:
  assumes "1 \<le> m" "m < m'" "m' \<le> 12"
  shows "days_before_month y m + days_in_month y m \<le> days_before_month y m'"
proof -
  have m: "1 \<le> m" "m \<le> 12" and m': "1 \<le> m'" "m' \<le> 12" using assms by auto
  show ?thesis
    using m
    by (cases m rule: month_cases; use m' in \<open>cases m' rule: month_cases\<close>;
        use assms(2) in \<open>simp add: days_before_month_def days_in_month_def DAYS_BEFORE_MONTH_def DAYS_IN_MONTH_def\<close>)
qed

text \<open>Dates compare as their ordinals do.\<close>

lemma toordinal_mono:
  assumes a: "valid_date a" and b: "valid_date b" and lt: "date_lt a b"
  shows "toordinal a < toordinal b"
proof -
  note va = a [unfolded valid_date_def] and vb = b [unfolded valid_date_def]
  have ba: "0 < days_before_month (year a) (month a) + day a"
    "days_before_month (year a) (month a) + day a \<le> 365 + (if is_leap (year a) then 1 else 0)"
    using day_of_year_bounds [of "month a" "day a" "year a"] va by auto
  have bb: "0 < days_before_month (year b) (month b) + day b"
    using day_of_year_bounds [of "month b" "day b" "year b"] vb by auto
  consider (y) "year a < year b"
    | (m) "year a = year b" "month a < month b"
    | (d) "year a = year b" "month a = month b" "day a < day b"
    using lt unfolding date_lt_def by blast
  then show ?thesis
  proof cases
    case y
    have "toordinal a \<le> days_before_year (year a + 1)"
      using ba(2) days_before_year_Suc [of "year a"] by (simp add: toordinal_def ymd2ord_def)
    also have "\<dots> \<le> days_before_year (year b)"
      using y by (intro days_before_year_mono) simp
    also have "\<dots> < toordinal b"
      using bb by (simp add: toordinal_def ymd2ord_def)
    finally show ?thesis .
  next
    case m
    have "days_before_month (year a) (month a) + days_in_month (year a) (month a)
        \<le> days_before_month (year a) (month b)"
      using days_before_month_mono [of "month a" "month b" "year a"] m va vb by simp
    then show ?thesis
      using m va vb by (simp add: toordinal_def ymd2ord_def)
  next
    case d
    then show ?thesis by (simp add: toordinal_def ymd2ord_def)
  qed
qed

lemma date_lt_iff:
  assumes "valid_date a" "valid_date b"
  shows "date_lt a b \<longleftrightarrow> toordinal a < toordinal b"
proof
  assume "date_lt a b"
  then show "toordinal a < toordinal b" using assms by (intro toordinal_mono)
next
  assume lt: "toordinal a < toordinal b"
  show "date_lt a b"
  proof (rule ccontr)
    assume n: "\<not> date_lt a b"
    then consider "date_lt b a" | "year a = year b" "month a = month b" "day a = day b"
      unfolding date_lt_def by linarith
    then show False
    proof cases
      case 1
      then have "toordinal b < toordinal a" using assms by (intro toordinal_mono)
      with lt show False by simp
    next
      case 2
      then have "toordinal a = toordinal b" by (simp add: toordinal_def)
      with lt show False by simp
    qed
  qed
qed

lemma year_of_ordinal:
  assumes "1 \<le> m" "m \<le> 12" "1 \<le> d" "d \<le> days_in_month y m"
    and "0 < ymd2ord y m d" "ymd2ord y m d \<le> MAXORDINAL"
  shows "MINYEAR \<le> y" "y \<le> MAXYEAR"
proof -
  have b: "0 < days_before_month y m + d"
    "days_before_month y m + d \<le> 365 + (if is_leap y then 1 else 0)"
    using day_of_year_bounds [OF assms(1-4)] by auto
  show "MINYEAR \<le> y"
  proof (rule ccontr)
    assume "\<not> MINYEAR \<le> y"
    then have "y + 1 \<le> 1" by (simp add: MINYEAR_def)
    then have "days_before_year (y + 1) \<le> days_before_year 1" by (rule days_before_year_mono)
    moreover have "days_before_year 1 = 0" by (simp add: days_before_year_def)
    moreover have "ymd2ord y m d \<le> days_before_year (y + 1)"
      using b(2) days_before_year_Suc [of y] by (simp add: ymd2ord_def)
    ultimately show False using assms(5) by simp
  qed
  show "y \<le> MAXYEAR"
  proof (rule ccontr)
    assume "\<not> y \<le> MAXYEAR"
    then have "10000 \<le> y" by (simp add: MAXYEAR_def)
    then have "days_before_year 10000 \<le> days_before_year y" by (rule days_before_year_mono)
    moreover have "days_before_year 10000 = 3652059" by (simp add: days_before_year_def)
    moreover have "days_before_year y < ymd2ord y m d"
      using b(1) by (simp add: ymd2ord_def)
    ultimately show False using assms(6) by (simp add: MAXORDINAL_def)
  qed
qed

section \<open>Arithmetic and comparison of timestamps\<close>

lemma hms_of_seconds:
  fixes r :: int
  assumes "0 \<le> r" "r < 86400"
  shows "r div 3600 * 3600 + r mod 3600 div 60 * 60 + r mod 60 = r"
    and "0 \<le> r div 3600" "r div 3600 < 24"
    and "0 \<le> r mod 3600 div 60" "r mod 3600 div 60 < 60"
    and "0 \<le> r mod 60" "r mod 60 < 60"
proof -
  have "r mod 3600 mod 60 = r mod 60"
    by (rule mod_mod_cancel) simp
  then have "r mod 3600 div 60 * 60 + r mod 60 = r mod 3600"
    by (metis div_mult_mod_eq)
  then show "r div 3600 * 3600 + r mod 3600 div 60 * 60 + r mod 60 = r"
    by (metis add.assoc div_mult_mod_eq)
  show "0 \<le> r div 3600" "r div 3600 < 24" using assms by arith+
  have "0 \<le> r mod 3600" "r mod 3600 < 3600" by simp_all
  then show "0 \<le> r mod 3600 div 60" "r mod 3600 div 60 < 60" by arith+
  show "0 \<le> r mod 60" "r mod 60 < 60" by simp_all
qed

lemma datetime_add_Inr:
  assumes "datetime_add t td = Inr t'"
  shows "valid_date t'" and "valid_time t'"
    and "toordinal t' = toordinal t + days td + (time_seconds t + seconds td) div 86400"
    and "time_seconds t' = (time_seconds t + seconds td) mod 86400"
    and "tzinfo t' = tzinfo t"
proof -
  define s where "s = time_seconds t + seconds td"
  define n where "n = toordinal t + days td + s div 86400"
  define r where "r = s mod 86400"
  obtain y m d where o: "ord2ymd n = (y, m, d)" by (cases "ord2ymd n")
  have n: "0 < n" "n \<le> MAXORDINAL"
    using assms unfolding datetime_add_def Let_def s_def [symmetric] n_def [symmetric]
    by (auto split: if_splits)
  have t': "t' = \<lparr>year = y, month = m, day = d,
      hour = r div 3600, minute = (r mod 3600) div 60, second = r mod 60, tzinfo = tzinfo t\<rparr>"
    using assms n o unfolding datetime_add_def Let_def s_def [symmetric] n_def [symmetric] r_def [symmetric]
    by simp
  have c: "ymd2ord y m d = n" "1 \<le> m" "m \<le> 12" "1 \<le> d" "d \<le> days_in_month y m"
    using ord2ymd_correct [of n] o by simp_all
  have yr: "MINYEAR \<le> y" "y \<le> MAXYEAR"
    using year_of_ordinal [OF c(2-5)] n c(1) by simp_all
  have r: "0 \<le> r" "r < 86400" by (simp_all add: r_def)
  show "valid_date t'" using c yr by (simp add: valid_date_def t')
  show "valid_time t'" using hms_of_seconds(2-7) [OF r] by (simp add: valid_time_def t')
  show "toordinal t' = toordinal t + days td + (time_seconds t + seconds td) div 86400"
    using c(1) by (simp add: toordinal_def t' n_def s_def)
  show "time_seconds t' = (time_seconds t + seconds td) mod 86400"
    using hms_of_seconds(1) [OF r] by (simp add: time_seconds_def t' r_def s_def)
  show "tzinfo t' = tzinfo t" by (simp add: t')
qed

lemma datetime_add_timestamp:
  assumes "datetime_add t td = Inr t'"
  shows "timestamp t' = timestamp t + total_seconds td"
proof -
  have "(time_seconds t + seconds td) div 86400 * 86400 + (time_seconds t + seconds td) mod 86400
      = time_seconds t + seconds td"
    by simp
  then show ?thesis
    unfolding timestamp_def total_seconds_def
      datetime_add_Inr(3) [OF assms] datetime_add_Inr(4) [OF assms]
    by (simp add: algebra_simps)
qed

lemma time_seconds_bounds:
  assumes "valid_time t"
  shows "0 \<le> time_seconds t" "time_seconds t < 86400"
  using assms by (auto simp: valid_time_def time_seconds_def)

lemma time_seconds_lt_iff:
  assumes "valid_time a" "valid_time b"
  shows "time_seconds a < time_seconds b \<longleftrightarrow>
    hour a < hour b \<or> (hour a = hour b \<and> (minute a < minute b \<or> (minute a = minute b \<and> second a < second b)))"
  using assms unfolding valid_time_def time_seconds_def by auto

lemma datetime_lt_iff:
  assumes "valid_date a" "valid_time a" "valid_date b" "valid_time b"
  shows "datetime_lt a b \<longleftrightarrow> timestamp a < timestamp b"
proof -
  have eq: "(year a = year b \<and> month a = month b \<and> day a = day b) \<longleftrightarrow> toordinal a = toordinal b"
  proof
    assume "year a = year b \<and> month a = month b \<and> day a = day b"
    then show "toordinal a = toordinal b" by (simp add: toordinal_def)
  next
    assume e: "toordinal a = toordinal b"
    then have "\<not> date_lt a b" "\<not> date_lt b a"
      using date_lt_iff [OF assms(1,3)] date_lt_iff [OF assms(3,1)] by simp_all
    then show "year a = year b \<and> month a = month b \<and> day a = day b"
      unfolding date_lt_def by linarith
  qed
  have "datetime_lt a b \<longleftrightarrow>
      toordinal a < toordinal b \<or> (toordinal a = toordinal b \<and> time_seconds a < time_seconds b)"
    unfolding datetime_lt_def date_lt_iff [OF assms(1,3)] time_seconds_lt_iff [OF assms(2,4)]
    using eq by blast
  also have "\<dots> \<longleftrightarrow> timestamp a < timestamp b"
    using time_seconds_bounds [OF assms(2)] time_seconds_bounds [OF assms(4)]
    unfolding timestamp_def by auto
  finally show ?thesis .
qed

section \<open>The start of the academic year\<close>

lemma first_september_ordinal:
  "ymd2ord y 9 1 = days_before_year y + 244 + (if is_leap y then 1 else 0)"
  "ymd2ord y 8 25 = ymd2ord y 9 1 - 7"
  by (simp_all add: ymd2ord_def days_before_month_def DAYS_BEFORE_MONTH_def)

lemma first_september_range:
  assumes "MINYEAR \<le> y" "y \<le> MAXYEAR"
  shows "244 \<le> ymd2ord y 9 1" "ymd2ord y 9 1 \<le> MAXORDINAL"
proof -
  have "days_before_year 1 \<le> days_before_year y"
    using assms(1) by (intro days_before_year_mono) (simp add: MINYEAR_def)
  then show "244 \<le> ymd2ord y 9 1"
    by (simp add: first_september_ordinal days_before_year_def)
  have "days_before_year (y + 1) \<le> days_before_year 10000"
    using assms(2) by (intro days_before_year_mono) (simp add: MAXYEAR_def)
  moreover have "days_before_year 10000 = 3652059" by (simp add: days_before_year_def)
  ultimately show "ymd2ord y 9 1 \<le> MAXORDINAL"
    using days_before_year_Suc [of y]
    by (simp add: first_september_ordinal MAXORDINAL_def split: if_splits)
qed

lemma datetime_add_succeeds:
  assumes "0 < toordinal t + days td + (time_seconds t + seconds td) div 86400"
    and "toordinal t + days td + (time_seconds t + seconds td) div 86400 \<le> MAXORDINAL"
  shows "\<exists>t'. datetime_add t td = Inr t'"
proof -
  obtain y m d where
    "ord2ymd (toordinal t + days td + (time_seconds t + seconds td) div 86400) = (y, m, d)"
    using prod_cases3 by blast
  then show ?thesis using assms by (simp add: datetime_add_def Let_def)
qed

lemma get_start_Inr:
  assumes "MINYEAR \<le> y" "y \<le> MAXYEAR"
  obtains t where "get_start_datetime_of_academic_year y = Inr t"
    and "valid_date t" and "hour t = 0" and "minute t = 0" and "second t = 0"
    and "tzinfo t = TZ_NAME"
    and "toordinal t = ymd2ord y 9 1 - (ymd2ord y 9 1 + 6) mod 7"
proof -
  define fs :: datetime where
    "fs = \<lparr>year = y, month = 9, day = 1, hour = 0, minute = 0, second = 0, tzinfo = TZ_NAME\<rparr>"
  define wd where "wd = (ymd2ord y 9 1 + 6) mod 7"
  define td :: timedelta where "td = \<lparr>days = - wd, seconds = 0\<rparr>"
  have wd: "0 \<le> wd" "wd < 7" by (simp_all add: wd_def)
  have i: "datetime_init y 9 1 TZ_NAME = Inr fs"
    using assms
    by (simp add: datetime_init_def fits_c_int_def C_INT_MIN_def C_INT_MAX_def MINYEAR_def
        MAXYEAR_def fs_def days_in_month_def DAYS_IN_MONTH_def)
  have w: "weekday fs = wd"
    by (simp add: weekday_def toordinal_def fs_def wd_def)
  have ti: "timedelta_init 0 (weekday fs) 0 0 = Inr \<lparr>days = wd, seconds = 0\<rparr>"
    using wd by (simp add: timedelta_init_def w)
  have tn: "timedelta_neg \<lparr>days = wd, seconds = 0\<rparr> = Inr td"
    using wd by (simp add: timedelta_neg_def td_def)
  have g: "get_start_datetime_of_academic_year y = datetime_add fs td"
    by (simp add: get_start_datetime_of_academic_year_def i ti datetime_sub_def tn)
  have n: "0 < toordinal fs + days td + (time_seconds fs + seconds td) div 86400"
    "toordinal fs + days td + (time_seconds fs + seconds td) div 86400 \<le> MAXORDINAL"
    using first_september_range [OF assms] wd
    by (simp_all add: toordinal_def fs_def td_def time_seconds_def)
  then obtain t where t: "datetime_add fs td = Inr t"
    using datetime_add_succeeds by blast
  note f = datetime_add_Inr [OF t]
  have ts: "time_seconds t = 0"
    using f(4) by (simp add: fs_def td_def time_seconds_def)
  then have z: "hour t = 0" "minute t = 0" "second t = 0"
    using f(2) by (auto simp: valid_time_def time_seconds_def)
  have "toordinal t = ymd2ord y 9 1 - (ymd2ord y 9 1 + 6) mod 7"
    using f(3) by (simp add: fs_def td_def toordinal_def time_seconds_def wd_def)
  moreover have "tzinfo t = TZ_NAME" using f(5) by (simp add: fs_def)
  ultimately show thesis using that g t f(1) z by simp
qed

lemma get_start_out_of_range:
  "fits_c_int y \<Longrightarrow> y < MINYEAR \<or> MAXYEAR < y \<Longrightarrow>
   get_start_datetime_of_academic_year y = Inl (ValueError OutOfRange)"
  by (auto simp: get_start_datetime_of_academic_year_def datetime_init_def fits_c_int_def
      C_INT_MIN_def C_INT_MAX_def)

lemma get_start_overflow:
  "\<not> fits_c_int y \<Longrightarrow> get_start_datetime_of_academic_year y = Inl OverflowError"
  by (simp add: get_start_datetime_of_academic_year_def datetime_init_def)

lemma valid_first_september:
  "MINYEAR \<le> y \<Longrightarrow> y \<le> MAXYEAR \<Longrightarrow> valid_date \<lparr>year = y, month = 9, day = 1\<rparr>"
  "MINYEAR \<le> y \<Longrightarrow> y \<le> MAXYEAR \<Longrightarrow> valid_date \<lparr>year = y, month = 8, day = 25\<rparr>"
  by (simp_all add: valid_date_def days_in_month_def DAYS_IN_MONTH_def)

text \<open>
  C5, as the code has it: for every year from 1 to 9999,
  \<open>get_start_datetime_of_academic_year\<close> returns a timestamp at midnight in the fixed
  timezone whose date is a Monday, on or before September 1 of the year and after
  August 25 of it: September 1 less its weekday index in days. For any other integer
  year the construction of September 1 raises: the library's \<^verbatim>\<open>ValueError\<close> when the
  year fits a C integer of 32 bits, \<^verbatim>\<open>OverflowError\<close> when it does not.
\<close>

theorem start_of_academic_year_is_monday:
  "(MINYEAR \<le> y \<and> y \<le> MAXYEAR \<longrightarrow>
      (\<exists>t. get_start_datetime_of_academic_year y = Inr t
         \<and> hour t = 0 \<and> minute t = 0 \<and> second t = 0 \<and> tzinfo t = TZ_NAME
         \<and> weekday t = 0
         \<and> date_le t \<lparr>year = y, month = 9, day = 1\<rparr>
         \<and> date_lt \<lparr>year = y, month = 8, day = 25\<rparr> t
         \<and> toordinal t =
             toordinal \<lparr>year = y, month = 9, day = 1\<rparr> - weekday \<lparr>year = y, month = 9, day = 1\<rparr>))
   \<and> (fits_c_int y \<and> (y < MINYEAR \<or> MAXYEAR < y) \<longrightarrow>
        get_start_datetime_of_academic_year y = Inl (ValueError OutOfRange))
   \<and> (y < - 2147483648 \<or> 2147483647 < y \<longrightarrow>
        get_start_datetime_of_academic_year y = Inl OverflowError)"
proof (intro conjI impI)
  assume "MINYEAR \<le> y \<and> y \<le> MAXYEAR"
  then have y: "MINYEAR \<le> y" "y \<le> MAXYEAR" by simp_all
  obtain t where t: "get_start_datetime_of_academic_year y = Inr t"
    and v: "valid_date t" and z: "hour t = 0" "minute t = 0" "second t = 0"
    and tz: "tzinfo t = TZ_NAME"
    and o: "toordinal t = ymd2ord y 9 1 - (ymd2ord y 9 1 + 6) mod 7"
    by (rule get_start_Inr [OF y])
  define N where "N = ymd2ord y 9 1"
  have m: "0 \<le> (N + 6) mod 7" "(N + 6) mod 7 < 7" by simp_all
  have o': "toordinal t = N - (N + 6) mod 7" using o by (simp add: N_def)
  have s1: "toordinal \<lparr>year = y, month = 9, day = 1\<rparr> = N"
    by (simp add: toordinal_def N_def)
  have s2: "toordinal \<lparr>year = y, month = 8, day = 25\<rparr> = N - 7"
    by (simp add: toordinal_def N_def first_september_ordinal(2))
  have "(N + 6 - (N + 6) mod 7) mod 7 = 0"
    by (simp add: minus_mod_eq_mult_div)
  then have wk: "weekday t = 0"
    unfolding weekday_def o' by (simp add: algebra_simps)
  have le: "date_le t \<lparr>year = y, month = 9, day = 1\<rparr>"
    unfolding date_le_def date_lt_iff [OF valid_first_september(1) [OF y] v] o' s1
    using m by simp
  have lt: "date_lt \<lparr>year = y, month = 8, day = 25\<rparr> t"
    unfolding date_lt_iff [OF valid_first_september(2) [OF y] v] o' s2
    using m by simp
  have "toordinal t =
      toordinal \<lparr>year = y, month = 9, day = 1\<rparr> - weekday \<lparr>year = y, month = 9, day = 1\<rparr>"
    unfolding weekday_def s1 o' by simp
  with t z tz wk le lt show "\<exists>t. get_start_datetime_of_academic_year y = Inr t
         \<and> hour t = 0 \<and> minute t = 0 \<and> second t = 0 \<and> tzinfo t = TZ_NAME
         \<and> weekday t = 0
         \<and> date_le t \<lparr>year = y, month = 9, day = 1\<rparr>
         \<and> date_lt \<lparr>year = y, month = 8, day = 25\<rparr> t
         \<and> toordinal t =
             toordinal \<lparr>year = y, month = 9, day = 1\<rparr> - weekday \<lparr>year = y, month = 9, day = 1\<rparr>"
    by blast
next
  assume "fits_c_int y \<and> (y < MINYEAR \<or> MAXYEAR < y)"
  then show "get_start_datetime_of_academic_year y = Inl (ValueError OutOfRange)"
    using get_start_out_of_range [of y] by blast
next
  assume "y < - 2147483648 \<or> 2147483647 < y"
  then have "\<not> fits_c_int y"
    by (auto simp: fits_c_int_def C_INT_MIN_def C_INT_MAX_def)
  then show "get_start_datetime_of_academic_year y = Inl OverflowError"
    by (rule get_start_overflow)
qed

theorem start_of_academic_year_is_monday_witness:
  "MINYEAR \<le> 2023 \<and> 2023 \<le> MAXYEAR
   \<and> get_start_datetime_of_academic_year 2023 = Inr (at 2023 8 28 0 0)
   \<and> weekday (at 2023 8 28 0 0) = 0
   \<and> date_le (at 2023 8 28 0 0) \<lparr>year = 2023, month = 9, day = 1\<rparr>
   \<and> date_lt \<lparr>year = 2023, month = 8, day = 25\<rparr> (at 2023 8 28 0 0)
   \<and> fits_c_int 10000 \<and> (10000 < MINYEAR \<or> MAXYEAR < 10000)
   \<and> get_start_datetime_of_academic_year 10000 = Inl (ValueError OutOfRange)
   \<and> ((2147483648::int) < - 2147483648 \<or> 2147483647 < (2147483648::int))
   \<and> get_start_datetime_of_academic_year 2147483648 = Inl OverflowError"
proof -
  have r: "MINYEAR \<le> 2023 \<and> 2023 \<le> MAXYEAR"
    "fits_c_int 10000 \<and> (10000 < MINYEAR \<or> MAXYEAR < 10000)"
    "(2147483648::int) < - 2147483648 \<or> 2147483647 < (2147483648::int)"
    by (simp_all add: MINYEAR_def MAXYEAR_def fits_c_int_def C_INT_MIN_def C_INT_MAX_def)
  from start_of_academic_year_is_monday [of 2023, THEN conjunct1, rule_format, OF r(1)]
  have "weekday (at 2023 8 28 0 0) = 0
   \<and> date_le (at 2023 8 28 0 0) \<lparr>year = 2023, month = 9, day = 1\<rparr>
   \<and> date_lt \<lparr>year = 2023, month = 8, day = 25\<rparr> (at 2023 8 28 0 0)"
    unfolding start_2023 by auto
  moreover from start_of_academic_year_is_monday
    [of 10000, THEN conjunct2, THEN conjunct1, rule_format, OF r(2)]
  have "get_start_datetime_of_academic_year 10000 = Inl (ValueError OutOfRange)" .
  moreover from start_of_academic_year_is_monday
    [of 2147483648, THEN conjunct2, THEN conjunct2, rule_format, OF r(3)]
  have "get_start_datetime_of_academic_year 2147483648 = Inl OverflowError" .
  ultimately show ?thesis using r start_2023 by blast
qed

text \<open>Year 0 is an integer year for which the function raises.\<close>

theorem start_of_academic_year_year_zero_counterexample:
  "get_start_datetime_of_academic_year 0 = Inl (ValueError OutOfRange)"
  by (simp add: get_start_datetime_of_academic_year_def datetime_init_def MINYEAR_def
      fits_c_int_def C_INT_MIN_def C_INT_MAX_def)

section \<open>Classifying a date\<close>

lemma date_of_simps [simp]:
  "valid_date (date_of t) = valid_date t" "toordinal (date_of t) = toordinal t"
  by (simp_all add: date_of_def valid_date_def toordinal_def)

lemma start_2024: "get_start_datetime_of_academic_year 2024 = Inr (at 2024 8 26 0 0)"
  by (simp add: get_start_datetime_of_academic_year_def at_def date_defs)

lemma start_2025: "get_start_datetime_of_academic_year 2025 = Inr (at 2025 9 1 0 0)"
  by (simp add: get_start_datetime_of_academic_year_def at_def date_defs)

lemma start_9999: "get_start_datetime_of_academic_year 9999 = Inr (at 9999 8 30 0 0)"
  by (simp add: get_start_datetime_of_academic_year_def at_def date_defs)

lemma start_10000: "get_start_datetime_of_academic_year 10000 = Inl (ValueError OutOfRange)"
  by (rule get_start_out_of_range)
    (simp_all add: MAXYEAR_def fits_c_int_def C_INT_MIN_def C_INT_MAX_def)

lemma semester_branches_exhaustive:
  assumes d: "valid_date d" and y: "year d < MAXYEAR"
    and s0: "get_start_datetime_of_academic_year (year d) = Inr s0"
    and s1: "get_start_datetime_of_academic_year (year d + 1) = Inr s1"
    and lt: "date_lt d (date_of s0)"
  shows "date_lt d (date_of s1)"
proof -
  have r0: "MINYEAR \<le> year d" "year d \<le> MAXYEAR"
    and r1: "MINYEAR \<le> year d + 1" "year d + 1 \<le> MAXYEAR"
    using d y by (simp_all add: valid_date_def)
  obtain t0 where t0: "get_start_datetime_of_academic_year (year d) = Inr t0" "valid_date t0"
    "toordinal t0 = ymd2ord (year d) 9 1 - (ymd2ord (year d) 9 1 + 6) mod 7"
    by (rule get_start_Inr [OF r0])
  obtain t1 where t1: "get_start_datetime_of_academic_year (year d + 1) = Inr t1" "valid_date t1"
    "toordinal t1 = ymd2ord (year d + 1) 9 1 - (ymd2ord (year d + 1) 9 1 + 6) mod 7"
    by (rule get_start_Inr [OF r1])
  have e: "s0 = t0" "s1 = t1" using s0 s1 t0(1) t1(1) by simp_all
  have "toordinal d < toordinal t0"
    using lt date_lt_iff [of d "date_of s0"] d t0(2) e by simp
  also have "\<dots> \<le> ymd2ord (year d) 9 1"
    unfolding t0(3) by simp
  also have "\<dots> \<le> ymd2ord (year d + 1) 9 1 - 6"
    using days_before_year_Suc [of "year d"]
    by (simp add: first_september_ordinal split: if_splits)
  also have "\<dots> \<le> toordinal t1"
  proof -
    have "(ymd2ord (year d + 1) 9 1 + 6) mod 7 < 7" by simp
    then show ?thesis unfolding t1(3) by linarith
  qed
  finally have "toordinal d < toordinal (date_of s1)" using e by simp
  then show ?thesis using date_lt_iff [of d "date_of s1"] d t1(2) e by simp
qed

text \<open>
  C4, as the code has it: for every reference date \<open>d\<close> of a year before 9999,
  \<open>get_semester_type\<close> returns AUTUMN if \<open>d\<close> is on or after the start of the academic
  year of \<open>d\<close>'s year, else SPRING if \<open>d\<close> is before the start of the next one, else
  raises \<^verbatim>\<open>SemesterTypeNotFoundError\<close>, which is not the plain \<^verbatim>\<open>ValueError\<close> (and, the
  two starts being a year apart, is never reached). For a date of year 9999 the start of
  year 10000 is computed before the comparison and raises the library's \<^verbatim>\<open>ValueError\<close>.
  2023-08-28 is AUTUMN and 2024-08-25 is SPRING.
\<close>

theorem semester_type_classification:
  "(valid_date d \<and> year d < MAXYEAR \<longrightarrow>
      (\<exists>s0 s1. get_start_datetime_of_academic_year (year d) = Inr s0
         \<and> get_start_datetime_of_academic_year (year d + 1) = Inr s1
         \<and> get_semester_type today (Some d) =
             (if date_ge d (date_of s0) then Inr AUTUMN
              else if date_lt d (date_of s1) then Inr SPRING
              else Inl SemesterTypeNotFoundError)
         \<and> get_semester_type today (Some d) \<noteq> Inl SemesterTypeNotFoundError))
   \<and> (valid_date d \<and> year d = MAXYEAR \<longrightarrow>
        get_semester_type today (Some d) = Inl (ValueError OutOfRange))
   \<and> (\<forall>k. SemesterTypeNotFoundError \<noteq> ValueError k)
   \<and> get_semester_type today (Some \<lparr>year = 2023, month = 8, day = 28\<rparr>) = Inr AUTUMN
   \<and> get_semester_type today (Some \<lparr>year = 2024, month = 8, day = 25\<rparr>) = Inr SPRING"
proof (intro conjI impI allI)
  assume "valid_date d \<and> year d < MAXYEAR"
  then have d: "valid_date d" and y: "year d < MAXYEAR" by simp_all
  have r0: "MINYEAR \<le> year d" "year d \<le> MAXYEAR"
    and r1: "MINYEAR \<le> year d + 1" "year d + 1 \<le> MAXYEAR"
    using d y by (simp_all add: valid_date_def)
  obtain s0 where s0: "get_start_datetime_of_academic_year (year d) = Inr s0"
    by (rule get_start_Inr [OF r0])
  obtain s1 where s1: "get_start_datetime_of_academic_year (year d + 1) = Inr s1"
    by (rule get_start_Inr [OF r1])
  have g: "get_semester_type today (Some d) =
             (if date_ge d (date_of s0) then Inr AUTUMN
              else if date_lt d (date_of s1) then Inr SPRING
              else Inl SemesterTypeNotFoundError)"
    by (simp add: get_semester_type_def s0 s1)
  have "date_ge d (date_of s0) \<or> date_lt d (date_of s1)"
    using semester_branches_exhaustive [OF d y s0 s1] by (auto simp: date_ge_def)
  then have "get_semester_type today (Some d) \<noteq> Inl SemesterTypeNotFoundError"
    unfolding g by auto
  with s0 s1 g show "\<exists>s0 s1. get_start_datetime_of_academic_year (year d) = Inr s0
         \<and> get_start_datetime_of_academic_year (year d + 1) = Inr s1
         \<and> get_semester_type today (Some d) =
             (if date_ge d (date_of s0) then Inr AUTUMN
              else if date_lt d (date_of s1) then Inr SPRING
              else Inl SemesterTypeNotFoundError)
         \<and> get_semester_type today (Some d) \<noteq> Inl SemesterTypeNotFoundError"
    by blast
next
  assume "valid_date d \<and> year d = MAXYEAR"
  then have r0: "MINYEAR \<le> year d" "year d \<le> MAXYEAR" and m: "year d = MAXYEAR"
    by (simp_all add: valid_date_def)
  obtain s0 where s0: "get_start_datetime_of_academic_year (year d) = Inr s0"
    by (rule get_start_Inr [OF r0])
  have "get_start_datetime_of_academic_year (year d + 1) = Inl (ValueError OutOfRange)"
    by (rule get_start_out_of_range)
      (simp_all add: m MAXYEAR_def fits_c_int_def C_INT_MIN_def C_INT_MAX_def)
  then show "get_semester_type today (Some d) = Inl (ValueError OutOfRange)"
    by (simp add: get_semester_type_def s0)
next
  fix k show "SemesterTypeNotFoundError \<noteq> ValueError k" by simp
next
  show "get_semester_type today (Some \<lparr>year = 2023, month = 8, day = 28\<rparr>) = Inr AUTUMN"
    by (simp add: get_semester_type_def start_2023 start_2024 date_ge_def date_lt_def date_of_def at_def)
next
  show "get_semester_type today (Some \<lparr>year = 2024, month = 8, day = 25\<rparr>) = Inr SPRING"
    by (simp add: get_semester_type_def start_2024 start_2025 date_ge_def date_lt_def date_of_def at_def)
qed

theorem semester_type_classification_witness:
  "valid_date \<lparr>year = 2023, month = 8, day = 28\<rparr>
   \<and> year \<lparr>year = 2023, month = 8, day = 28\<rparr> < MAXYEAR
   \<and> get_semester_type \<lparr>year = 2000, month = 1, day = 1\<rparr>
        (Some \<lparr>year = 2023, month = 8, day = 28\<rparr>) \<noteq> Inl SemesterTypeNotFoundError
   \<and> valid_date \<lparr>year = 9999, month = 1, day = 1\<rparr>
   \<and> year \<lparr>year = 9999, month = 1, day = 1\<rparr> = MAXYEAR
   \<and> get_semester_type \<lparr>year = 2000, month = 1, day = 1\<rparr>
        (Some \<lparr>year = 9999, month = 1, day = 1\<rparr>) = Inl (ValueError OutOfRange)"
proof -
  have a: "valid_date \<lparr>year = 2023, month = 8, day = 28\<rparr>
      \<and> year \<lparr>year = 2023, month = 8, day = 28\<rparr> < MAXYEAR"
    by (simp add: valid_date_def MINYEAR_def MAXYEAR_def days_in_month_def DAYS_IN_MONTH_def)
  have b: "valid_date \<lparr>year = 9999, month = 1, day = 1\<rparr>
      \<and> year \<lparr>year = 9999, month = 1, day = 1\<rparr> = MAXYEAR"
    by (simp add: valid_date_def MINYEAR_def MAXYEAR_def days_in_month_def DAYS_IN_MONTH_def)
  from semester_type_classification
         [of "\<lparr>year = 2023, month = 8, day = 28\<rparr>" "\<lparr>year = 2000, month = 1, day = 1\<rparr>",
          THEN conjunct1, rule_format, OF a]
  have "get_semester_type \<lparr>year = 2000, month = 1, day = 1\<rparr>
        (Some \<lparr>year = 2023, month = 8, day = 28\<rparr>) \<noteq> Inl SemesterTypeNotFoundError"
    by blast
  moreover from semester_type_classification
         [of "\<lparr>year = 9999, month = 1, day = 1\<rparr>" "\<lparr>year = 2000, month = 1, day = 1\<rparr>",
          THEN conjunct2, THEN conjunct1, rule_format, OF b]
  have "get_semester_type \<lparr>year = 2000, month = 1, day = 1\<rparr>
        (Some \<lparr>year = 9999, month = 1, day = 1\<rparr>) = Inl (ValueError OutOfRange)" .
  ultimately show ?thesis using a b by blast
qed

text \<open>9999-12-31 is on or after the start of its academic year, and is not classified.\<close>

theorem semester_type_last_year_counterexample:
  "valid_date \<lparr>year = 9999, month = 12, day = 31\<rparr>
   \<and> get_start_datetime_of_academic_year 9999 = Inr (at 9999 8 30 0 0)
   \<and> date_ge \<lparr>year = 9999, month = 12, day = 31\<rparr> (date_of (at 9999 8 30 0 0))
   \<and> get_semester_type \<lparr>year = 2000, month = 1, day = 1\<rparr>
        (Some \<lparr>year = 9999, month = 12, day = 31\<rparr>) = Inl (ValueError OutOfRange)"
  by (simp add: start_9999 start_10000 get_semester_type_def)
    (simp add: valid_date_def MINYEAR_def MAXYEAR_def days_in_month_def DAYS_IN_MONTH_def
      date_ge_def date_lt_def date_of_def at_def)

section \<open>The Events of a table\<close>

text \<open>Where an emitted Event comes from: a row, its two offsets and one of its week
  tokens.\<close>

lemma getitem_Inr: "getitem xs i = Inr x \<longleftrightarrow> i < length xs \<and> xs ! i = x"
  by (simp add: getitem_def)

lemma week_event_Inr:
  assumes "week_event self wi st et cols tok = Inr ev"
  obtains wk wtd s0 where "int_str tok = Inr wk"
    and "timedelta_init (wk - 1) wi 0 0 = Inr wtd"
    and "datetime_add (start_datetime_of_academic_year self) wtd = Inr s0"
    and "datetime_add s0 st = Inr (start_datetime ev)"
    and "datetime_add s0 et = Inr (end_datetime ev)"
    and "7 < length cols"
    and "title ev = cols ! 3" and "event_type ev = cols ! 4" and "participant ev = cols ! 5"
    and "location ev = cols ! 6" and "comment ev = cols ! 7"
proof -
  from assms obtain wk where 1: "int_str tok = Inr wk"
    by (auto simp: week_event_def split: sum.splits)
  from assms 1 obtain wtd where 2: "timedelta_init (wk - 1) wi 0 0 = Inr wtd"
    by (auto simp: week_event_def split: sum.splits)
  from assms 1 2 obtain s0 where 3: "datetime_add (start_datetime_of_academic_year self) wtd = Inr s0"
    by (auto simp: week_event_def split: sum.splits)
  from assms 1 2 3 obtain s where 4: "datetime_add s0 st = Inr s"
    by (auto simp: week_event_def split: sum.splits)
  from assms 1 2 3 4 obtain e where 5: "datetime_add s0 et = Inr e"
    by (auto simp: week_event_def split: sum.splits)
  from assms have 6: "7 < length cols"
    by (simp add: week_event_def 1 2 3 4 5 getitem_def split: if_splits)
  then have "ev = \<lparr>title = cols ! 3, event_type = cols ! 4, participant = cols ! 5,
      location = cols ! 6, comment = cols ! 7, start_datetime = s, end_datetime = e\<rparr>"
    using assms by (simp add: week_event_def 1 2 3 4 5 getitem_def)
  then show thesis using that [OF 1 2 3] 4 5 6 by simp
qed

lemma week_loop_set:
  "ev \<in> set (fst (week_loop self wi st et cols toks)) \<Longrightarrow>
   \<exists>tok \<in> set toks. week_event self wi st et cols tok = Inr ev"
  by (induction toks) (auto split: sum.splits prod.splits)

lemma week_loop_complete:
  "week_loop self wi st et cols toks = (evs, None) \<Longrightarrow>
   map (week_event self wi st et cols) toks = map Inr evs"
  by (induction toks arbitrary: evs) (auto split: sum.splits prod.splits)

lemma row_events_set:
  assumes "ev \<in> set (fst (row_events self wi cols))"
  obtains st et tok where "row_times cols = Inr (st, et)"
    and "week_event self wi st et cols tok = Inr ev"
  using assms week_loop_set
  by (fastforce simp: row_events_def split: sum.splits prod.splits)

lemma rows_loop_set:
  "ev \<in> set (fst (rows_loop self wi rows)) \<Longrightarrow>
   \<exists>r \<in> set rows. \<exists>wi'. ev \<in> set (fst (row_events self wi' (row_columns r)))"
proof (induction rows arbitrary: wi)
  case Nil
  then show ?case by (simp add: rows_loop.simps)
next
  case (Cons r rs)
  note mem = Cons.prems
  show ?case
  proof (cases "row_class r")
    case None
    with mem show ?thesis by (simp add: rows_loop.simps)
  next
    case (Some cls)
    show ?thesis
    proof (cases "row_weekday wi cls (row_columns r)")
      case (Inl e)
      with mem Some show ?thesis by (simp add: rows_loop.simps)
    next
      case (Inr wi')
      show ?thesis
      proof (cases "ascii ''noinfo'' \<in> set cls")
        case True
        with mem Some Inr have "ev \<in> set (fst (rows_loop self wi' rs))"
          by (simp add: rows_loop.simps)
        from Cons.IH [OF this] show ?thesis by auto
      next
        case False
        obtain evs err where re: "row_events self wi' (row_columns r) = (evs, err)"
          by (cases "row_events self wi' (row_columns r)")
        obtain evs' err' where rl: "rows_loop self wi' rs = (evs', err')"
          by (cases "rows_loop self wi' rs")
        from mem Some Inr False re rl have "ev \<in> set evs \<or> ev \<in> set evs'"
          by (cases err) (auto simp: rows_loop.simps)
        then show ?thesis
        proof
          assume "ev \<in> set evs"
          then have "ev \<in> set (fst (row_events self wi' (row_columns r)))" by (simp add: re)
          then show ?thesis by auto
        next
          assume "ev \<in> set evs'"
          then have "ev \<in> set (fst (rows_loop self wi' rs))" by (simp add: rl)
          from Cons.IH [OF this] show ?thesis by auto
        qed
      qed
    qed
  qed
qed

lemma timedelta_init_Inr:
  assumes "timedelta_init w d h m = Inr td"
  shows "valid_timedelta td"
    and "total_seconds td = (d + w * 7) * 86400 + h * 3600 + m * 60"
    and "days td = d + w * 7 + (h * 3600 + m * 60) div 86400"
    and "seconds td = (h * 3600 + m * 60) mod 86400"
proof -
  have td: "td = \<lparr>days = d + w * 7 + (h * 3600 + m * 60) div 86400,
      seconds = (h * 3600 + m * 60) mod 86400\<rparr>"
    and b: "\<bar>d + w * 7 + (h * 3600 + m * 60) div 86400\<bar> \<le> 999999999"
    using assms by (auto simp: timedelta_init_def Let_def split: if_splits)
  show "valid_timedelta td" using b by (simp add: valid_timedelta_def td)
  show "days td = d + w * 7 + (h * 3600 + m * 60) div 86400"
    and "seconds td = (h * 3600 + m * 60) mod 86400"
    by (simp_all add: td)
  have "(h * 3600 + m * 60) div 86400 * 86400 + (h * 3600 + m * 60) mod 86400 = h * 3600 + m * 60"
    by simp
  then show "total_seconds td = (d + w * 7) * 86400 + h * 3600 + m * 60"
    by (simp add: total_seconds_def td algebra_simps)
qed

lemma row_times_Inr:
  assumes "row_times cols = Inr (st, et)"
  obtains h1 m1 h2 m2 where "timedelta_init 0 0 h1 m1 = Inr st" "timedelta_init 0 0 h2 m2 = Inr et"
proof -
  from assms obtain a b where "time_timedelta a = Inr st" "time_timedelta b = Inr et"
    by (auto simp: row_times_def split: sum.splits prod.splits)
  then show thesis using that
    by (auto simp: time_timedelta_def split: sum.splits)
qed

lemma event_order:
  assumes "datetime_add s0 st = Inr s" "datetime_add s0 et = Inr e"
  shows "datetime_lt s e \<longleftrightarrow> total_seconds st < total_seconds et"
proof -
  note a = datetime_add_Inr [OF assms(1)] and b = datetime_add_Inr [OF assms(2)]
  have "datetime_lt s e \<longleftrightarrow> timestamp s < timestamp e"
    by (rule datetime_lt_iff [OF a(1,2) b(1,2)])
  then show ?thesis
    by (simp add: datetime_add_timestamp [OF assms(1)] datetime_add_timestamp [OF assms(2)])
qed

text \<open>
  C3, as the code has it: every Event that \<open>get_events\<close> yields comes from a row whose
  time column gave two offsets, and its start is before its end exactly when the start
  offset (hours and minutes of the first time) is smaller than the end offset. The code
  does not compare the two times of a row.
\<close>

theorem event_start_before_end_iff:
  assumes "ev \<in> set (fst (get_events self today session semester_type))"
  shows "\<exists>st rows r wi s e h1 m1 h2 m2.
           resolve_semester_type today semester_type = Inr st
         \<and> session (fetch_params self st) = Inr rows
         \<and> r \<in> set rows
         \<and> ev \<in> set (fst (row_events self wi (row_columns r)))
         \<and> row_times (row_columns r) = Inr (s, e)
         \<and> total_seconds s = h1 * 3600 + m1 * 60
         \<and> total_seconds e = h2 * 3600 + m2 * 60
         \<and> (datetime_lt (start_datetime ev) (end_datetime ev) \<longleftrightarrow> h1 * 60 + m1 < h2 * 60 + m2)"
proof -
  from assms obtain st where st: "resolve_semester_type today semester_type = Inr st"
    by (auto simp: get_events_def split: sum.splits)
  from assms st obtain rows where rows: "session (fetch_params self st) = Inr rows"
    by (auto simp: get_events_def split: sum.splits)
  from assms st rows have "ev \<in> set (fst (rows_loop self 0 rows))"
    by (simp add: get_events_def)
  then obtain r wi where r: "r \<in> set rows"
    and ev: "ev \<in> set (fst (row_events self wi (row_columns r)))"
    using rows_loop_set by blast
  from ev obtain s e tok where t: "row_times (row_columns r) = Inr (s, e)"
    and w: "week_event self wi s e (row_columns r) tok = Inr ev"
    by (rule row_events_set)
  from t obtain h1 m1 h2 m2 where i: "timedelta_init 0 0 h1 m1 = Inr s" "timedelta_init 0 0 h2 m2 = Inr e"
    by (rule row_times_Inr)
  have ts: "total_seconds s = h1 * 3600 + m1 * 60" "total_seconds e = h2 * 3600 + m2 * 60"
    using timedelta_init_Inr(2) [OF i(1)] timedelta_init_Inr(2) [OF i(2)] by simp_all
  from w obtain s0 where "datetime_add s0 s = Inr (start_datetime ev)"
    "datetime_add s0 e = Inr (end_datetime ev)"
    by (rule week_event_Inr)
  then have "datetime_lt (start_datetime ev) (end_datetime ev) \<longleftrightarrow> total_seconds s < total_seconds e"
    by (rule event_order)
  then have "datetime_lt (start_datetime ev) (end_datetime ev) \<longleftrightarrow> h1 * 60 + m1 < h2 * 60 + m2"
    unfolding ts by arith
  with st rows r ev t ts show ?thesis by blast
qed

theorem event_start_before_end_iff_witness:
  "lesson ''0'' (at 2023 8 28 8 0) (at 2023 8 28 9 20)
     \<in> set (fst (get_events schedule_2023 \<lparr>year = 2023, month = 9, day = 1\<rparr>
                   (\<lambda>q. Inr test_rows) (Some 1)))
   \<and> (\<exists>h1 m1 h2 m2.
         (datetime_lt (at 2023 8 28 8 0) (at 2023 8 28 9 20) \<longleftrightarrow>
            h1 * 60 + m1 < h2 * 60 + (m2::int)))"
proof -
  have m: "lesson ''0'' (at 2023 8 28 8 0) (at 2023 8 28 9 20)
     \<in> set (fst (get_events schedule_2023 \<lparr>year = 2023, month = 9, day = 1\<rparr>
                   (\<lambda>q. Inr test_rows) (Some 1)))"
    by (simp add: get_events_given_rows test_rows_events)
  from event_start_before_end_iff [OF m]
  have "\<exists>h1 m1 h2 m2.
         (datetime_lt (start_datetime (lesson ''0'' (at 2023 8 28 8 0) (at 2023 8 28 9 20)))
            (end_datetime (lesson ''0'' (at 2023 8 28 8 0) (at 2023 8 28 9 20))) \<longleftrightarrow>
            h1 * 60 + m1 < h2 * 60 + (m2::int))"
    by blast
  then show ?thesis using m by (simp add: lesson_def)
qed

text \<open>A row whose lesson ends before it starts yields an Event that does so too.\<close>

lemma backwards_events:
  "row_events schedule_2023 0 (row_columns (hd backwards_rows)) =
     ([lesson ''0'' (at 2023 8 28 9 20) (at 2023 8 28 8 0)], None)"
  by (simp add: backwards_rows_def row_defs date_defs text_defs)

theorem event_ends_before_start_counterexample:
  "get_events schedule_2023 \<lparr>year = 2023, month = 9, day = 1\<rparr> (\<lambda>q. Inr backwards_rows) (Some 1) =
     ([lesson ''0'' (at 2023 8 28 9 20) (at 2023 8 28 8 0)], None)
   \<and> \<not> datetime_lt (at 2023 8 28 9 20) (at 2023 8 28 8 0)"
proof -
  have "backwards_rows = [hd backwards_rows]"
    by (simp add: backwards_rows_def)
  moreover have "row_class (hd backwards_rows) = Some [ascii ''extra'']"
    by (simp add: backwards_rows_def)
  moreover have "row_weekday 0 [ascii ''extra''] (row_columns (hd backwards_rows)) = Inr 0"
    by (simp add: row_weekday_def ascii_def)
  moreover have "ascii ''noinfo'' \<notin> set [ascii ''extra'']"
    by (simp add: ascii_def)
  ultimately have "rows_loop schedule_2023 0 backwards_rows =
      ([lesson ''0'' (at 2023 8 28 9 20) (at 2023 8 28 8 0)], None)"
    using data_row [of "hd backwards_rows" "[ascii ''extra'']" 0 0 schedule_2023 "[]"]
    by (simp add: backwards_events rows_loop.simps(1))
  moreover have "\<not> datetime_lt (at 2023 8 28 9 20) (at 2023 8 28 8 0)"
    by (simp add: datetime_lt_def date_lt_def at_def)
  ultimately show ?thesis by (simp add: get_events_given_rows)
qed

section \<open>The Events of one row\<close>

lemma week_event_start:
  assumes "week_event self wi st et cols tok = Inr ev" and "int_str tok = Inr wk"
  shows "toordinal (start_datetime ev) =
           toordinal (start_datetime_of_academic_year self) + wi + 7 * (wk - 1)
           + time_seconds (start_datetime_of_academic_year self) div 86400 + days st
           + (time_seconds (start_datetime_of_academic_year self) mod 86400 + seconds st) div 86400"
    and "time_seconds (start_datetime ev) =
           (time_seconds (start_datetime_of_academic_year self) mod 86400 + seconds st) mod 86400"
    and "toordinal (end_datetime ev) =
           toordinal (start_datetime_of_academic_year self) + wi + 7 * (wk - 1)
           + time_seconds (start_datetime_of_academic_year self) div 86400 + days et
           + (time_seconds (start_datetime_of_academic_year self) mod 86400 + seconds et) div 86400"
    and "time_seconds (end_datetime ev) =
           (time_seconds (start_datetime_of_academic_year self) mod 86400 + seconds et) mod 86400"
proof -
  from assms(1) obtain wk' wtd s0 where w: "int_str tok = Inr wk'"
    and i: "timedelta_init (wk' - 1) wi 0 0 = Inr wtd"
    and a0: "datetime_add (start_datetime_of_academic_year self) wtd = Inr s0"
    and a1: "datetime_add s0 st = Inr (start_datetime ev)"
    and a2: "datetime_add s0 et = Inr (end_datetime ev)"
    by (rule week_event_Inr)
  have wk: "wk' = wk" using w assms(2) by simp
  have d: "days wtd = wi + 7 * (wk - 1)" "seconds wtd = 0"
    using timedelta_init_Inr(3,4) [OF i] by (simp_all add: wk)
  have o0: "toordinal s0 = toordinal (start_datetime_of_academic_year self) + wi + 7 * (wk - 1)
      + time_seconds (start_datetime_of_academic_year self) div 86400"
    and t0: "time_seconds s0 = time_seconds (start_datetime_of_academic_year self) mod 86400"
    using datetime_add_Inr(3,4) [OF a0] by (simp_all add: d)
  show "toordinal (start_datetime ev) =
           toordinal (start_datetime_of_academic_year self) + wi + 7 * (wk - 1)
           + time_seconds (start_datetime_of_academic_year self) div 86400 + days st
           + (time_seconds (start_datetime_of_academic_year self) mod 86400 + seconds st) div 86400"
    unfolding datetime_add_Inr(3) [OF a1] o0 t0 by simp
  show "time_seconds (start_datetime ev) =
           (time_seconds (start_datetime_of_academic_year self) mod 86400 + seconds st) mod 86400"
    unfolding datetime_add_Inr(4) [OF a1] t0 by simp
  show "toordinal (end_datetime ev) =
           toordinal (start_datetime_of_academic_year self) + wi + 7 * (wk - 1)
           + time_seconds (start_datetime_of_academic_year self) div 86400 + days et
           + (time_seconds (start_datetime_of_academic_year self) mod 86400 + seconds et) div 86400"
    unfolding datetime_add_Inr(3) [OF a2] o0 t0 by simp
  show "time_seconds (end_datetime ev) =
           (time_seconds (start_datetime_of_academic_year self) mod 86400 + seconds et) mod 86400"
    unfolding datetime_add_Inr(4) [OF a2] t0 by simp
qed

lemma week_event_diff:
  assumes "week_event self wi st et cols ta = Inr a" and "int_str ta = Inr wa"
    and "week_event self wi st et cols tb = Inr b" and "int_str tb = Inr wb"
  shows "datetime_diff (start_datetime a) (start_datetime b) = \<lparr>days = 7 * (wa - wb), seconds = 0\<rparr>"
    and "datetime_diff (end_datetime a) (end_datetime b) = \<lparr>days = 7 * (wa - wb), seconds = 0\<rparr>"
  unfolding datetime_diff_def Let_def
    week_event_start [OF assms(1,2)] week_event_start [OF assms(3,4)]
  by simp_all

lemma map_eq_nth:
  "map f xs = map g ys \<Longrightarrow> i < length ys \<Longrightarrow> f (xs ! i) = g (ys ! i)"
  by (metis length_map nth_map)

text \<open>
  C7, as the code has it: when a data row is processed without an exception, it yields
  exactly one Event per token of its week column, in order; all of them have the title,
  event type, participant, location and comment of columns 3 to 7; and for any two of
  them the starts, and the ends, differ by exactly 7 days times the difference of their
  week numbers.
\<close>

theorem row_yields_one_event_per_week:
  assumes "row_events self wi cols = (evs, None)"
  shows "\<exists>ws. map int_str (split_ws (cols ! 2)) = map Inr ws
     \<and> length evs = length (split_ws (cols ! 2))
     \<and> (\<forall>i < length evs.
          title (evs ! i) = cols ! 3 \<and> event_type (evs ! i) = cols ! 4
          \<and> participant (evs ! i) = cols ! 5 \<and> location (evs ! i) = cols ! 6
          \<and> comment (evs ! i) = cols ! 7)
     \<and> (\<forall>i < length evs. \<forall>j < length evs.
          datetime_diff (start_datetime (evs ! i)) (start_datetime (evs ! j)) =
            \<lparr>days = 7 * (ws ! i - ws ! j), seconds = 0\<rparr>
          \<and> datetime_diff (end_datetime (evs ! i)) (end_datetime (evs ! j)) =
            \<lparr>days = 7 * (ws ! i - ws ! j), seconds = 0\<rparr>)"
proof -
  from assms obtain st et where t: "row_times cols = Inr (st, et)"
    by (auto simp: row_events_def split: sum.splits prod.splits)
  from assms t have g: "getitem cols 2 = Inr (cols ! 2)"
    by (auto simp: row_events_def getitem_def split: sum.splits if_splits)
  define toks where "toks = split_ws (cols ! 2)"
  from assms t g have "week_loop self wi st et cols toks = (evs, None)"
    by (simp add: row_events_def toks_def)
  then have m: "map (week_event self wi st et cols) toks = map Inr evs"
    by (rule week_loop_complete)
  then have len: "length evs = length toks"
    by (metis length_map)
  have ev: "week_event self wi st et cols (toks ! i) = Inr (evs ! i)" if "i < length evs" for i
    using map_eq_nth [OF m that] .
  define ws where "ws = map (\<lambda>tok. case int_str tok of Inr w \<Rightarrow> w | Inl e \<Rightarrow> 0) toks"
  have w: "int_str (toks ! i) = Inr (ws ! i)" if "i < length evs" for i
  proof -
    from ev [OF that] obtain wk where "int_str (toks ! i) = Inr wk"
      by (rule week_event_Inr)
    then show ?thesis using that len by (simp add: ws_def)
  qed
  have "map int_str toks = map Inr ws"
    by (rule nth_equalityI) (use w len in \<open>simp_all add: ws_def\<close>)
  moreover have "title (evs ! i) = cols ! 3 \<and> event_type (evs ! i) = cols ! 4
          \<and> participant (evs ! i) = cols ! 5 \<and> location (evs ! i) = cols ! 6
          \<and> comment (evs ! i) = cols ! 7" if "i < length evs" for i
    using ev [OF that] by (rule week_event_Inr) simp
  moreover have "datetime_diff (start_datetime (evs ! i)) (start_datetime (evs ! j)) =
            \<lparr>days = 7 * (ws ! i - ws ! j), seconds = 0\<rparr>
          \<and> datetime_diff (end_datetime (evs ! i)) (end_datetime (evs ! j)) =
            \<lparr>days = 7 * (ws ! i - ws ! j), seconds = 0\<rparr>"
    if "i < length evs" "j < length evs" for i j
    using week_event_diff [OF ev [OF that(1)] w [OF that(1)] ev [OF that(2)] w [OF that(2)]]
    by simp
  ultimately show ?thesis using len unfolding toks_def by blast
qed

lemma repeated_events:
  "row_events schedule_2023 0 repeated_cells =
     ([lesson ''0'' (at 2023 8 28 8 0) (at 2023 8 28 9 20),
       lesson ''0'' (at 2023 9 11 8 0) (at 2023 9 11 9 20),
       lesson ''0'' (at 2023 9 25 8 0) (at 2023 9 25 9 20)], None)"
  by (simp add: repeated_cells_def row_defs date_defs text_defs)

theorem row_yields_one_event_per_week_witness:
  "row_events schedule_2023 0 repeated_cells =
     ([lesson ''0'' (at 2023 8 28 8 0) (at 2023 8 28 9 20),
       lesson ''0'' (at 2023 9 11 8 0) (at 2023 9 11 9 20),
       lesson ''0'' (at 2023 9 25 8 0) (at 2023 9 25 9 20)], None)
   \<and> length (split_ws (repeated_cells ! 2)) = 3
   \<and> datetime_diff (at 2023 9 25 8 0) (at 2023 8 28 8 0) = \<lparr>days = 28, seconds = 0\<rparr>"
proof -
  let ?evs = "[lesson ''0'' (at 2023 8 28 8 0) (at 2023 8 28 9 20),
       lesson ''0'' (at 2023 9 11 8 0) (at 2023 9 11 9 20),
       lesson ''0'' (at 2023 9 25 8 0) (at 2023 9 25 9 20)]"
  from row_yields_one_event_per_week [OF repeated_events]
  obtain ws where ws: "map int_str (split_ws (repeated_cells ! 2)) = map Inr ws"
    and len: "length ?evs = length (split_ws (repeated_cells ! 2))"
    and diff: "\<forall>i < length ?evs. \<forall>j < length ?evs.
          datetime_diff (start_datetime (?evs ! i)) (start_datetime (?evs ! j)) =
            \<lparr>days = 7 * (ws ! i - ws ! j), seconds = 0\<rparr>
          \<and> datetime_diff (end_datetime (?evs ! i)) (end_datetime (?evs ! j)) =
            \<lparr>days = 7 * (ws ! i - ws ! j), seconds = 0\<rparr>"
    by blast
  have "split_ws (repeated_cells ! 2) = [ascii ''1'', ascii ''3'', ascii ''5'']"
    by (simp add: repeated_cells_def lesson_cells_def text_defs)
  then have "map Inr ws = [Inr 1, Inr 3, Inr (5::int) :: error + int]"
    using ws by (simp add: text_defs)
  then have w: "ws = [1, 3, 5]"
    by (auto simp: map_eq_Cons_conv)
  have "(2::nat) < length ?evs" "(0::nat) < length ?evs" by simp_all
  with diff have "datetime_diff (start_datetime (?evs ! 2)) (start_datetime (?evs ! 0)) =
            \<lparr>days = 7 * (ws ! 2 - ws ! 0), seconds = 0\<rparr>"
    by blast
  then have "datetime_diff (at 2023 9 25 8 0) (at 2023 8 28 8 0) = \<lparr>days = 28, seconds = 0\<rparr>"
    by (simp add: w lesson_def)
  then show ?thesis using repeated_events len by simp
qed

text \<open>A week number that leads beyond the year 9999 ends the row with the library's
  \<^verbatim>\<open>OverflowError\<close>: two distinct week numbers are listed, one Event is yielded.\<close>

theorem row_with_far_week_counterexample:
  "map int_str (split_ws (far_cells ! 2)) = [Inr 1, Inr 600000]
   \<and> row_events schedule_2023 0 far_cells =
       ([lesson ''0'' (at 2023 8 28 8 0) (at 2023 8 28 9 20)], Some OverflowError)"
proof -
  have "split_ws (far_cells ! 2) = [ascii ''1'', ascii ''600000'']"
    by (simp add: far_cells_def lesson_cells_def text_defs)
  then have "map int_str (split_ws (far_cells ! 2)) = [Inr 1, Inr 600000]"
    by (simp add: text_defs)
  moreover have "row_events schedule_2023 0 far_cells =
       ([lesson ''0'' (at 2023 8 28 8 0) (at 2023 8 28 9 20)], Some OverflowError)"
    by (simp add: far_cells_def row_defs date_defs text_defs)
  ultimately show ?thesis by simp
qed

end
